theory Spec2Isabelle
  imports Complex_Main "HOL-Library.Word"
begin

section \<open>Colour mathematics (src/utils/color.ts)\<close>

text \<open>
  JavaScript numbers are modelled as \<open>real\<close> where the code computes with fractions and
  as \<open>int\<close> where it works on integer-valued channels. Strings are \<open>char list\<close>s; every
  string that occurs here is ASCII.
\<close>

record rgb =
  c_r :: real
  c_g :: real
  c_b :: real

record cmyk =
  k_c :: real
  k_m :: real
  k_y :: real
  k_k :: real

subsection \<open>hexToRgb and rgbToHex\<close>

definition is_hex_char :: "char \<Rightarrow> bool" where
  \<comment> \<open>the character class \<open>[a-f\d]\<close> under the \<open>i\<close> flag\<close>
  "is_hex_char ch = (ch \<in> set ''0123456789abcdefABCDEF'')"

definition hex_val :: "char \<Rightarrow> int" where
  \<comment> \<open>the value \<open>parseInt\<close> gives one hexadecimal digit\<close>
  "hex_val ch =
     (if ch = CHR ''0'' then 0 else if ch = CHR ''1'' then 1 else if ch = CHR ''2'' then 2
      else if ch = CHR ''3'' then 3 else if ch = CHR ''4'' then 4 else if ch = CHR ''5'' then 5
      else if ch = CHR ''6'' then 6 else if ch = CHR ''7'' then 7 else if ch = CHR ''8'' then 8
      else if ch = CHR ''9'' then 9
      else if ch = CHR ''a'' \<or> ch = CHR ''A'' then 10
      else if ch = CHR ''b'' \<or> ch = CHR ''B'' then 11
      else if ch = CHR ''c'' \<or> ch = CHR ''C'' then 12
      else if ch = CHR ''d'' \<or> ch = CHR ''D'' then 13
      else if ch = CHR ''e'' \<or> ch = CHR ''E'' then 14
      else 15)"

definition parseInt16 :: "string \<Rightarrow> int" where
  \<comment> \<open>\<open>parseInt(s, 16)\<close> on a string of hexadecimal digits\<close>
  "parseInt16 s = foldl (\<lambda>acc ch. 16 * acc + hex_val ch) 0 s"

definition regex_hex_groups :: "string \<Rightarrow> (string \<times> string \<times> string) option" where
  \<comment> \<open>\<open>/^#?([a-f\d]{2})([a-f\d]{2})([a-f\d]{2})$/i.exec(hex)\<close>: the three groups, or no match\<close>
  "regex_hex_groups hex =
     (let body = (case hex of [] \<Rightarrow> [] | ch # rest \<Rightarrow> if ch = CHR ''#'' then rest else hex)
      in if length body = 6 \<and> list_all is_hex_char body
         then Some (take 2 body, take 2 (drop 2 body), drop 4 body)
         else None)"

definition hexToRgb :: "string \<Rightarrow> int \<times> int \<times> int" where
  "hexToRgb hex =
     (case regex_hex_groups hex of
        Some (g1, g2, g3) \<Rightarrow> (parseInt16 g1, parseInt16 g2, parseInt16 g3)
      | None \<Rightarrow> (0, 0, 0))"

definition shl32 :: "int \<Rightarrow> nat \<Rightarrow> int" where
  \<comment> \<open>\<open>x << n\<close> on an integer-valued number: ToInt32, shift, read back signed\<close>
  "shl32 x n = sint (push_bit n (word_of_int x :: 32 word))"

definition hex_digit :: "nat \<Rightarrow> char" where
  "hex_digit d = ''0123456789abcdef'' ! d"

fun toString16_nat :: "nat \<Rightarrow> string" where
  "toString16_nat n =
     (if n < 16 then [hex_digit n] else toString16_nat (n div 16) @ [hex_digit (n mod 16)])"

declare toString16_nat.simps [simp del]

definition toString16 :: "int \<Rightarrow> string" where
  \<comment> \<open>\<open>Number.prototype.toString(16)\<close> on an integer\<close>
  "toString16 i = (if i < 0 then CHR ''-'' # toString16_nat (nat (- i)) else toString16_nat (nat i))"

definition rgbToHex :: "int \<Rightarrow> int \<Rightarrow> int \<Rightarrow> string" where
  "rgbToHex r g b = CHR ''#'' # drop 1 (toString16 (shl32 1 24 + shl32 r 16 + shl32 g 8 + b))"

subsection \<open>Pigment mixing\<close>

definition js_round :: "real \<Rightarrow> real" where
  \<comment> \<open>\<open>Math.round\<close>: the nearest integer, halves upwards\<close>
  "js_round x = of_int \<lfloor>x + 1 / 2\<rfloor>"

definition rgbToCmyk :: "real \<Rightarrow> real \<Rightarrow> real \<Rightarrow> cmyk" where
  "rgbToCmyk r g b =
     (let c = 1 - r / 255; m = 1 - g / 255; y = 1 - b / 255;
          k = min c (min m y)
      in if k = 1 then \<lparr>k_c = 0, k_m = 0, k_y = 0, k_k = 1\<rparr>
         else \<lparr>k_c = (c - k) / (1 - k), k_m = (m - k) / (1 - k), k_y = (y - k) / (1 - k), k_k = k\<rparr>)"

definition cmykToRgb :: "real \<Rightarrow> real \<Rightarrow> real \<Rightarrow> real \<Rightarrow> rgb" where
  "cmykToRgb c m y k =
     \<lparr>c_r = 255 * (1 - c) * (1 - k), c_g = 255 * (1 - m) * (1 - k), c_b = 255 * (1 - y) * (1 - k)\<rparr>"

definition mixPigments :: "rgb \<Rightarrow> rgb \<Rightarrow> real \<Rightarrow> rgb" where
  "mixPigments c1 c2 t =
     (let color1 = rgbToCmyk (c_r c1) (c_g c1) (c_b c1);
          color2 = rgbToCmyk (c_r c2) (c_g c2) (c_b c2);
          c = k_c color1 + (k_c color2 - k_c color1) * t;
          m = k_m color1 + (k_m color2 - k_m color1) * t;
          y = k_y color1 + (k_y color2 - k_y color1) * t;
          k = k_k color1 + (k_k color2 - k_k color1) * t;
          result = cmykToRgb c m y k
      in \<lparr>c_r = js_round (c_r result), c_g = js_round (c_g result), c_b = js_round (c_b result)\<rparr>)"

definition mixPigmentsFloatInPlace :: "rgb \<Rightarrow> rgb \<Rightarrow> real \<Rightarrow> rgb" where
  \<comment> \<open>returns the new value of \<open>target\<close>, which the source mutates in place\<close>
  "mixPigmentsFloatInPlace target source t =
     (let c1 = 1 - c_r target / 255; m1 = 1 - c_g target / 255; y1 = 1 - c_b target / 255;
          k1 = min c1 (min m1 y1);
          (c1, m1, y1) = (if k1 < 1 then ((c1 - k1) / (1 - k1), (m1 - k1) / (1 - k1), (y1 - k1) / (1 - k1))
                          else (0, 0, 0));
          c2 = 1 - c_r source / 255; m2 = 1 - c_g source / 255; y2 = 1 - c_b source / 255;
          k2 = min c2 (min m2 y2);
          (c2, m2, y2) = (if k2 < 1 then ((c2 - k2) / (1 - k2), (m2 - k2) / (1 - k2), (y2 - k2) / (1 - k2))
                          else (0, 0, 0));
          c = c1 + (c2 - c1) * t; m = m1 + (m2 - m1) * t; y = y1 + (y2 - y1) * t;
          k = k1 + (k2 - k1) * t
      in \<lparr>c_r = 255 * (1 - c) * (1 - k), c_g = 255 * (1 - m) * (1 - k), c_b = 255 * (1 - y) * (1 - k)\<rparr>)"

text \<open>The interpolation the specification names: each channel moves linearly from \<open>a\<close> to \<open>b\<close>.\<close>

definition lerp :: "real \<Rightarrow> real \<Rightarrow> real \<Rightarrow> real" where
  "lerp a b t = a + (b - a) * t"

section \<open>The painting engine's state (src/hooks/useGouacheEngine.ts)\<close>

text \<open>
  A canvas is its pixel size and its RGBA bytes in row-major order, four per pixel, the
  layout \<open>getImageData\<close> exposes. The model stores the bytes as they are written
  (no premultiplied alpha), so a \<open>putImageData\<close> followed by a \<open>getImageData\<close> of the
  same area returns the bytes unchanged.
\<close>

type_synonym byte = "8 word"

record ImageData =
  i_width :: nat
  i_height :: nat
  i_data :: "byte list"

record canvas =
  cv_width :: nat
  cv_height :: nat
  cv_data :: "byte list"

definition canvas_ok :: "canvas \<Rightarrow> bool" where
  \<comment> \<open>the bitmap of a canvas always has four bytes for each of its pixels\<close>
  "canvas_ok c = (length (cv_data c) = 4 * cv_width c * cv_height c)"

definition blank_canvas :: "nat \<Rightarrow> nat \<Rightarrow> canvas" where
  \<comment> \<open>a canvas after its size was set: transparent black\<close>
  "blank_canvas w h = \<lparr>cv_width = w, cv_height = h, cv_data = replicate (4 * w * h) 0\<rparr>"

definition getImageData :: "canvas \<Rightarrow> nat \<Rightarrow> nat \<Rightarrow> ImageData" where
  \<comment> \<open>\<open>ctx.getImageData(0, 0, w, h)\<close>; pixels outside the canvas read as transparent black\<close>
  "getImageData c w h =
     \<lparr>i_width = w, i_height = h,
      i_data = map (\<lambda>k. let p = k div 4; x = p mod w; y = p div w
                        in if x < cv_width c \<and> y < cv_height c
                           then cv_data c ! (4 * (y * cv_width c + x) + k mod 4) else 0)
                   [0..<4 * w * h]\<rparr>"

definition putImageData :: "ImageData \<Rightarrow> canvas \<Rightarrow> canvas" where
  \<comment> \<open>\<open>ctx.putImageData(img, 0, 0)\<close>: overwrites the overlap, leaves the rest\<close>
  "putImageData img c =
     c\<lparr>cv_data := map (\<lambda>k. let p = k div 4; x = p mod cv_width c; y = p div cv_width c
                            in if x < i_width img \<and> y < i_height img
                               then i_data img ! (4 * (y * i_width img + x) + k mod 4)
                               else cv_data c ! k)
                       [0..<4 * cv_width c * cv_height c]\<rparr>"

datatype BrushType = Flat | Hog | Round | Fan | Fan2 | Fan3 | Chisel | Pastel | Pastel2

record BrushSettings =
  brushType :: BrushType
  size :: real
  opacity :: real
  color :: string
  wetMode :: bool
  pressureSensitivity :: bool
  useTexture :: bool
  colorVariation :: real
  hueVariation :: real
  autoClean :: bool
  patternScale :: real
  patternAngle :: real
  patternStampRotation :: real
  patternJitterScale :: real
  patternJitterRotation :: real
  patternJitterHue :: real
  patternJitterSaturation :: real
  patternJitterValue :: real

record Point =
  p_x :: real
  p_y :: real
  pressure :: real
  tiltX :: "real option"
  tiltY :: "real option"

record Bristle =
  b_dx :: real
  b_dy :: real
  b_length :: real
  b_thickness :: real
  tempBias :: real
  hueBias :: real
  feather :: real
  drySensitivity :: real
  b_color :: rgb
  hasPaint :: bool
  normX :: "real option"
  normY :: "real option"

record HistoryState =
  layerId :: string
  painting :: ImageData
  h_mask :: ImageData

text \<open>
  \<open>layerCanvases\<close> and \<open>layerContextsRef\<close> are two maps with the same keys in the source:
  \<open>init\<close> registers a canvas and its 2D context together and \<open>removeLayer\<close> deletes
  both. A slot holds the canvas and says whether its context is registered.
\<close>

record layer_slot =
  ls_canvas :: canvas
  ls_ctx :: bool

record engine =
  layerCanvases :: "(string \<times> layer_slot) list"
  maskCanvas :: "canvas option"
  maskCtx :: bool
  temp :: "canvas option"
  composite :: "canvas option"
  heightMapPattern :: bool
  patternImage :: "(real \<times> real) option"
  activeLayerId :: string
  pixelRatio :: real
  settingsRef :: BrushSettings
  isDrawing :: bool
  lastPoint :: Point
  angle :: real
  hasMoved :: bool
  paintLoad :: real
  bristles :: "Bristle list"
  history :: "HistoryState list"
  historyIndex :: int
  randomCalls :: nat

definition MAX_HISTORY_BYTES :: int where
  "MAX_HISTORY_BYTES = 150 * 1024 * 1024"

definition getActiveSlot :: "engine \<Rightarrow> layer_slot option" where
  "getActiveSlot s = map_of (layerCanvases s) (activeLayerId s)"

definition maskCtxRef :: "engine \<Rightarrow> canvas option" where
  \<comment> \<open>the canvas behind \<open>maskCtxRef.current\<close>, when that context exists\<close>
  "maskCtxRef s = (if maskCtx s then maskCanvas s else None)"

fun update_slot :: "string \<Rightarrow> (layer_slot \<Rightarrow> layer_slot) \<Rightarrow> (string \<times> layer_slot) list
    \<Rightarrow> (string \<times> layer_slot) list" where
  "update_slot k f [] = []"
| "update_slot k f ((k', v) # xs) = (if k = k' then (k', f v) # xs else (k', v) # update_slot k f xs)"

subsection \<open>History: commitHistory, undo, redo\<close>

definition entry_bytes :: "HistoryState \<Rightarrow> int" where
  "entry_bytes e = int (length (i_data (painting e))) + int (length (i_data (h_mask e)))"

definition js_splice_from :: "'a list \<Rightarrow> int \<Rightarrow> 'a list" where
  \<comment> \<open>what \<open>xs.splice(start)\<close> leaves in \<open>xs\<close>; a negative start counts from the end\<close>
  "js_splice_from xs start =
     (let len = int (length xs);
          from = (if start < 0 then max (len + start) 0 else min start len)
      in take (nat from) xs)"

definition js_index :: "'a list \<Rightarrow> int \<Rightarrow> 'a option" where
  \<comment> \<open>\<open>xs[i]\<close>, \<open>None\<close> for \<open>undefined\<close>\<close>
  "js_index xs i = (if 0 \<le> i \<and> i < int (length xs) then Some (xs ! nat i) else None)"

fun evict :: "HistoryState list \<Rightarrow> int \<Rightarrow> int \<Rightarrow> HistoryState list \<times> int \<times> int" where
  \<comment> \<open>the \<open>while\<close> loop of \<open>commitHistory\<close>: history, memory usage, history index\<close>
  "evict [] usage idx = ([], usage, idx)"
| "evict (removed # rest) usage idx =
     (if usage > MAX_HISTORY_BYTES then evict rest (usage - entry_bytes removed) (idx - 1)
      else (removed # rest, usage, idx))"

definition commitHistory :: "engine \<Rightarrow> engine" where
  "commitHistory s =
     (case getActiveSlot s of
        None \<Rightarrow> s
      | Some slot \<Rightarrow>
          (case maskCtxRef s of
             None \<Rightarrow> s
           | Some m \<Rightarrow>
               if \<not> ls_ctx slot then s
               else
                 let w = cv_width (ls_canvas slot); h = cv_height (ls_canvas slot)
                 in if w \<le> 0 \<or> h \<le> 0 then s
                    else
                      let hist1 = (if historyIndex s < int (length (history s)) - 1
                                   then js_splice_from (history s) (historyIndex s + 1)
                                   else history s);
                          hist2 = hist1 @ [\<lparr>layerId = activeLayerId s,
                                             painting = getImageData (ls_canvas slot) w h,
                                             h_mask = getImageData m w h\<rparr>];
                          idx2 = historyIndex s + 1;
                          currentMemoryUsage = foldl (\<lambda>acc e. acc + entry_bytes e) 0 hist2;
                          (hist3, usage3, idx3) = evict hist2 currentMemoryUsage idx2
                      in if length hist3 > 20
                         then s\<lparr>history := tl hist3, historyIndex := idx3 - 1\<rparr>
                         else s\<lparr>history := hist3, historyIndex := idx3\<rparr>))"

definition restore_entry :: "HistoryState \<Rightarrow> engine \<Rightarrow> engine" where
  \<comment> \<open>the body shared by \<open>undo\<close> and \<open>redo\<close>: put the painting on its layer when that layer
      still has a context, and the mask on the mask canvas\<close>
  "restore_entry e s =
     (let layers' = (case map_of (layerCanvases s) (layerId e) of
                       Some slot \<Rightarrow>
                         if ls_ctx slot
                         then update_slot (layerId e)
                                (\<lambda>sl. sl\<lparr>ls_canvas := putImageData (painting e) (ls_canvas sl)\<rparr>)
                                (layerCanvases s)
                         else layerCanvases s
                     | None \<Rightarrow> layerCanvases s)
      in s\<lparr>layerCanvases := layers',
            maskCanvas := map_option (putImageData (h_mask e)) (maskCanvas s)\<rparr>)"

definition undo :: "engine \<Rightarrow> engine" where
  "undo s =
     (if historyIndex s \<le> 0 \<or> maskCtxRef s = None then s
      else
        let s1 = s\<lparr>historyIndex := historyIndex s - 1\<rparr>
        in case js_index (history s1) (historyIndex s1) of
             Some prevState \<Rightarrow> restore_entry prevState s1
           | None \<Rightarrow> s1)"

definition redo :: "engine \<Rightarrow> engine" where
  "redo s =
     (if historyIndex s \<ge> int (length (history s)) - 1 \<or> maskCtxRef s = None then s
      else
        let s1 = s\<lparr>historyIndex := historyIndex s + 1\<rparr>
        in case js_index (history s1) (historyIndex s1) of
             Some nextState \<Rightarrow> restore_entry nextState s1
           | None \<Rightarrow> s1)"

subsection \<open>updateSize\<close>

definition to_canvas_size :: "real \<Rightarrow> nat" where
  \<comment> \<open>assigning a number to \<open>canvas.width\<close>: truncated and reduced modulo \<open>2^32\<close>\<close>
  "to_canvas_size x = nat (\<lfloor>x\<rfloor> mod 4294967296)"

definition safeResize :: "real \<Rightarrow> real \<Rightarrow> canvas \<Rightarrow> canvas \<times> bool" where
  \<comment> \<open>the resized canvas and the function's result; the old bitmap is drawn back at the origin
      of the cleared canvas under the identity transform\<close>
  "safeResize newWidth newHeight c =
     (if real (cv_width c) = newWidth \<and> real (cv_height c) = newHeight then (c, False)
      else
        let tempC = c;
            w' = to_canvas_size newWidth; h' = to_canvas_size newHeight;
            cleared = blank_canvas w' h'
        in (if cv_width tempC > 0 \<and> cv_height tempC > 0
            then putImageData (getImageData tempC (cv_width tempC) (cv_height tempC)) cleared
            else cleared, True))"

definition updateSize :: "real \<Rightarrow> real \<Rightarrow> engine \<Rightarrow> engine" where
  "updateSize width height s =
     (let dpr = pixelRatio s; newWidth = width * dpr; newHeight = height * dpr
      in if newWidth \<le> 0 \<or> newHeight \<le> 0 then s
         else
           let resize = safeResize newWidth newHeight;
               maskResized = (case maskCanvas s of Some m \<Rightarrow> snd (resize m) | None \<Rightarrow> False);
               layerResized = list_ex (\<lambda>(id, slot). snd (resize (ls_canvas slot))) (layerCanvases s);
               anyResized = (maskResized \<or> layerResized);
               s1 = s\<lparr>maskCanvas := map_option (fst \<circ> resize) (maskCanvas s),
                       temp := map_option (fst \<circ> resize) (temp s),
                       composite := map_option (fst \<circ> resize) (composite s),
                       layerCanvases := map (\<lambda>(id, slot). (id, slot\<lparr>ls_canvas := fst (resize (ls_canvas slot))\<rparr>))
                                            (layerCanvases s)\<rparr>
           in if anyResized then commitHistory (s1\<lparr>history := [], historyIndex := - 1\<rparr>)
              else if length (history s1) = 0 then commitHistory s1
              else s1)"

subsection \<open>invertMask\<close>

definition to_u8clamped :: "int \<Rightarrow> byte" where
  \<comment> \<open>storing an integer in a \<open>Uint8ClampedArray\<close>\<close>
  "to_u8clamped x = word_of_int (max 0 (min 255 x))"

text \<open>
  The loop of \<open>invertMask\<close>, \<open>for (i = 0; i < data.length; i += 4)\<close>. A typed array ignores
  a write beyond its end, as \<open>list_update\<close> does.
\<close>

function invert_loop :: "nat \<Rightarrow> byte list \<Rightarrow> byte list" where
  "invert_loop i data =
     (if i < length data
      then invert_loop (i + 4)
             (data[i + 3 := to_u8clamped (255 - uint (data ! (i + 3))),
                   i := 43, i + 1 := 108, i + 2 := 176])
      else data)"
  by pat_completeness auto
termination
  by (relation "measure (\<lambda>(i, data). length data - i)") auto

declare invert_loop.simps [simp del]

definition invertMask :: "engine \<Rightarrow> engine" where
  "invertMask s =
     (case maskCanvas s of
        None \<Rightarrow> s
      | Some mask_c \<Rightarrow>
          if \<not> maskCtx s then s
          else
            let w = cv_width mask_c; h = cv_height mask_c
            in if w \<le> 0 \<or> h \<le> 0 then s
               else
                 let imageData = getImageData mask_c w h;
                     data = invert_loop 0 (i_data imageData)
                 in commitHistory (s\<lparr>maskCanvas := Some (putImageData (imageData\<lparr>i_data := data\<rparr>) mask_c)\<rparr>))"



section \<open>Paper texture (src/utils/canvasUtils.ts)\<close>



text \<open>The body of the pixel loop: the height computed from one pixel, and the two writes.\<close>

definition physics_alpha :: "byte \<Rightarrow> byte \<Rightarrow> byte \<Rightarrow> int" where
  "physics_alpha r g b =
     (let lum = (0.299 * real_of_int (uint r) + 0.587 * real_of_int (uint g) + 0.114 * real_of_int (uint b)) / 255;
          rejection = 1.0 - lum;
          rejection = (if rejection < 0.02 then 0 else rejection ^ 3 * 64.0);
          rejection = min 1 (max 0 rejection);
          physicsAlpha = \<lfloor>rejection * 255\<rfloor>
      in physicsAlpha)"

definition texture_step :: "nat \<Rightarrow> byte list \<Rightarrow> byte list \<Rightarrow> byte list \<times> byte list" where
  "texture_step i vData hData =
     (let r = vData ! i; g = vData ! (i + 1); b = vData ! (i + 2);
          vData = vData[i := r, i + 1 := g, i + 2 := b, i + 3 := 255];
          physicsAlpha = physics_alpha r g b;
          hData = hData[i := 0, i + 1 := 0, i + 2 := 0, i + 3 := to_u8clamped physicsAlpha]
      in (vData, hData))"

function texture_loop :: "nat \<Rightarrow> byte list \<Rightarrow> byte list \<Rightarrow> byte list \<times> byte list" where
  "texture_loop i vData hData =
     (if i < length vData
      then texture_loop (i + 4) (fst (texture_step i vData hData)) (snd (texture_step i vData hData))
      else (vData, hData))"
  by pat_completeness auto
termination
  by (relation "measure (\<lambda>(i, vData, hData). length vData - i)")
    (auto simp: case_prod_beta texture_step_def Let_def)

declare texture_loop.simps [simp del]







section \<open>Further operations of the engine\<close>

subsection \<open>updateBristles\<close>

definition rgb_of_hex :: "string \<Rightarrow> rgb" where
  \<comment> \<open>\<open>hexToRgb\<close> as a colour record\<close>
  "rgb_of_hex hex = (case hexToRgb hex of (r, g, b) \<Rightarrow> \<lparr>c_r = of_int r, c_g = of_int g, c_b = of_int b\<rparr>)"

text \<open>
  One pass of the loop over the candidates of a brush that is not a pastel: the offset,
  length and thickness the brush type draws, or \<open>None\<close> where the loop takes \<open>continue\<close>.
  The second component counts the calls of \<open>Math.random()\<close>; the test of \<open>fan2\<close> draws its
  second number only when the first part of the conjunction holds.
\<close>

definition bristle_geometry :: "BrushType \<Rightarrow> (nat \<Rightarrow> real) \<Rightarrow> nat \<Rightarrow> int \<Rightarrow> nat
    \<Rightarrow> (real \<times> real \<times> real \<times> real) option \<times> nat" where
  "bristle_geometry type rnd i bristleCount rc =
     (if type = Round then
        let r = sqrt (rnd rc) * 0.5; theta = rnd (rc + 1) * pi * 2
        in (Some (r * cos theta, r * sin theta * 0.5, 1.0, 1.0 - r), rc + 2)
      else if type = Fan then
        (Some ((rnd rc - 0.5) * 1.2, (rnd (rc + 1) - 0.5) * 0.1, 0.8 + rnd (rc + 2) * 0.4, 1.0), rc + 3)
      else if type = Fan2 then
        let t = (rnd rc - 0.5) * 2.5
        in if \<bar>t\<bar> > 0.2 then
             (if rnd (rc + 1) < 0.4 then (None, rc + 2)
              else (Some (t, (rnd (rc + 2) - 0.5) * 0.1, 0.7 + rnd (rc + 3) * 0.5, 0.5 + rnd (rc + 4) * 0.8), rc + 5))
           else (Some (t, (rnd (rc + 1) - 0.5) * 0.1, 0.7 + rnd (rc + 2) * 0.5, 0.5 + rnd (rc + 3) * 0.8), rc + 4)
      else if type = Fan3 then
        let u = (rnd rc - 0.5) * 2; t = sgn u * \<bar>u\<bar> ^ 3
        in (Some (t * 1.1, (rnd (rc + 1) - 0.5) * 0.2, 0.6 + rnd (rc + 2) * 0.6, 0.4 + rnd (rc + 3) * 0.6), rc + 4)
      else if type = Hog then
        (Some ((rnd rc - 0.5) * 0.8, (rnd (rc + 1) - 0.5) * 0.4, 0.5 + rnd (rc + 2) * 1.0, 1.0), rc + 3)
      else if type = Chisel then
        (Some (real i / real_of_int bristleCount - 0.5, 0, 1.0, 1.5), rc)
      else
        (Some (real i / real_of_int bristleCount - 0.5, (rnd rc - 0.5) * 0.1, 1.0, 1.0), rc + 1))"

definition new_bristle :: "(nat \<Rightarrow> real) \<Rightarrow> rgb \<Rightarrow> bool \<Rightarrow> real \<times> real \<times> real \<times> real \<Rightarrow> nat \<Rightarrow> Bristle \<times> nat" where
  "new_bristle rnd baseColor startWithPaint geo rc =
     (case geo of (dx, dy, len, thickness) \<Rightarrow>
        (\<lparr>b_dx = dx, b_dy = dy,
          b_length = len * (0.9 + rnd rc * 0.2),
          b_thickness = thickness * (0.8 + rnd (rc + 1) * 0.4),
          tempBias = (rnd (rc + 2) - 0.5) + (rnd (rc + 3) - 0.5),
          hueBias = (rnd (rc + 4) - 0.5) * 2,
          feather = (rnd (rc + 5) - 0.5) * 0.5,
          drySensitivity = rnd (rc + 6),
          b_color = baseColor, hasPaint = startWithPaint, normX = None, normY = None\<rparr>, rc + 7))"

fun bristle_loop :: "BrushType \<Rightarrow> (nat \<Rightarrow> real) \<Rightarrow> rgb \<Rightarrow> bool \<Rightarrow> int \<Rightarrow> nat list \<Rightarrow> nat
    \<Rightarrow> Bristle list \<times> nat" where
  "bristle_loop type rnd baseColor startWithPaint bristleCount [] rc = ([], rc)"
| "bristle_loop type rnd baseColor startWithPaint bristleCount (i # is) rc =
     (case bristle_geometry type rnd i bristleCount rc of
        (None, rc1) \<Rightarrow> bristle_loop type rnd baseColor startWithPaint bristleCount is rc1
      | (Some geo, rc1) \<Rightarrow>
          let (b, rc2) = new_bristle rnd baseColor startWithPaint geo rc1;
              (bs, rc3) = bristle_loop type rnd baseColor startWithPaint bristleCount is rc2
          in (b # bs, rc3))"

fun void_loop :: "(nat \<Rightarrow> real) \<Rightarrow> nat \<Rightarrow> nat \<Rightarrow> (real \<times> real \<times> real) list" where
  "void_loop rnd 0 rc = []"
| "void_loop rnd (Suc n) rc =
     ((rnd rc - 0.5) * 1.0, (rnd (rc + 1) - 0.5) * 1.0, 0.15 + rnd (rc + 2) * 0.25) # void_loop rnd n (rc + 3)"

fun pastel_loop :: "(nat \<Rightarrow> real) \<Rightarrow> rgb \<Rightarrow> (real \<times> real \<times> real) list \<Rightarrow> nat \<Rightarrow> nat \<Rightarrow> Bristle list \<times> nat" where
  "pastel_loop rnd baseColor voids 0 rc = ([], rc)"
| "pastel_loop rnd baseColor voids (Suc n) rc =
     (let theta = rnd rc * pi * 2; r = sqrt (rnd (rc + 1));
          px = r * cos theta; py = r * sin theta;
          rejected = list_ex (\<lambda>(vx, vy, vr). sqrt ((px - vx) * (px - vx) + (py - vy) * (py - vy)) < vr) voids
      in if rejected then pastel_loop rnd baseColor voids n (rc + 2)
         else
           let b = \<lparr>b_dx = px, b_dy = py, b_length = 0.1,
                    b_thickness = 0.5 + rnd (rc + 2) * 2.5,
                    tempBias = (rnd (rc + 3) - 0.5) * 1.0,
                    hueBias = (rnd (rc + 4) - 0.5) * 1.5,
                    feather = 0, drySensitivity = rnd (rc + 5),
                    b_color = baseColor, hasPaint = True, normX = Some px, normY = Some py\<rparr>;
               (bs, rc') = pastel_loop rnd baseColor voids n (rc + 6)
           in (b # bs, rc'))"

text \<open>
  Sorting the pastel particles with the comparator \<open>() => Math.random() - 0.5\<close> leaves an
  order that depends on the engine's sorting algorithm; the model takes it as \<open>shuffle\<close>.
  The other brushes are sorted by \<open>dy\<close>, stably.
\<close>

definition updateBristles :: "(Bristle list \<Rightarrow> Bristle list) \<Rightarrow> (nat \<Rightarrow> real) \<Rightarrow> BrushType \<Rightarrow> real \<Rightarrow> engine \<Rightarrow> engine" where
  "updateBristles shuffle rnd type sz s =
     (let baseColor = rgb_of_hex (color (settingsRef s));
          startWithPaint = (\<not> wetMode (settingsRef s));
          rc = randomCalls s
      in if type = Pastel \<or> type = Pastel2 then
           let particleCount = 60;
               numVoids = 3 + nat \<lfloor>rnd rc * 3\<rfloor>;
               voids = void_loop rnd numVoids (rc + 1);
               (newBristles, rc') = pastel_loop rnd baseColor voids particleCount (rc + 1 + 3 * numVoids)
           in s\<lparr>bristles := shuffle newBristles, randomCalls := rc'\<rparr>
         else
           let countMultiplier = (if type = Fan3 then 3.5 else 1.5);
               bristleCount = \<lfloor>sz * countMultiplier\<rfloor>;
               (newBristles, rc') = bristle_loop type rnd baseColor startWithPaint bristleCount
                                      [0..<nat bristleCount] rc
           in s\<lparr>bristles := sort_key b_dy newBristles, randomCalls := rc'\<rparr>)"

subsection \<open>Pattern stamping: drawPatternLine, drawPatternLasso\<close>

text \<open>
  The 2D context draws through the browser's rasteriser, which the model takes as a
  parameter. A stamp is one \<open>drawImage\<close> of the pattern image: where the context was
  translated to, its rotation, the three optional CSS filters, and the drawn size.
\<close>

record stamp =
  st_x :: real
  st_y :: real
  st_rad :: real
  st_hue :: "real option"
  st_sat :: "real option"
  st_val :: "real option"
  st_w :: real
  st_h :: real

text \<open>
  \<open>rz_stamp\<close> draws one stamp clipped to a lasso path (no path: no clip), \<open>rz_texture\<close>
  erases with the height-map pattern inside the path, \<open>rz_mask\<close> erases with the mask canvas
  drawn at the given size.
\<close>

record rasterizer =
  rz_stamp :: "(real \<times> real) list \<Rightarrow> stamp \<Rightarrow> canvas \<Rightarrow> canvas"
  rz_texture :: "(real \<times> real) list \<Rightarrow> canvas \<Rightarrow> canvas"
  rz_mask :: "canvas \<Rightarrow> real \<Rightarrow> real \<Rightarrow> canvas \<Rightarrow> canvas"

definition js_rem :: "real \<Rightarrow> real \<Rightarrow> real" where
  \<comment> \<open>the \<open>%\<close> operator: the remainder has the sign of the dividend\<close>
  "js_rem a b = a - b * of_int (if a / b < 0 then \<lceil>a / b\<rceil> else \<lfloor>a / b\<rfloor>)"

definition getActiveContext :: "engine \<Rightarrow> layer_slot option" where
  "getActiveContext s =
     (case getActiveSlot s of Some slot \<Rightarrow> if ls_ctx slot then Some slot else None | None \<Rightarrow> None)"

definition set_active_canvas :: "canvas \<Rightarrow> engine \<Rightarrow> engine" where
  "set_active_canvas c s =
     s\<lparr>layerCanvases := update_slot (activeLayerId s) (\<lambda>sl. sl\<lparr>ls_canvas := c\<rparr>) (layerCanvases s)\<rparr>"

definition pattern_stamp :: "BrushSettings \<Rightarrow> real \<times> real \<Rightarrow> real \<Rightarrow> real
    \<Rightarrow> real option \<Rightarrow> real option \<Rightarrow> real option \<Rightarrow> real option \<Rightarrow> real option \<Rightarrow> stamp" where
  "pattern_stamp st patternImg tx ty r1 r2 r3 r4 r5 =
     (let jitterScale = patternJitterScale st; jitterRot = patternJitterRotation st;
          jitterHue = patternJitterHue st; jitterSat = patternJitterSaturation st;
          jitterVal = patternJitterValue st;
          instanceRot = (case r1 of Some v \<Rightarrow> js_rem (patternStampRotation st + (v - 0.5) * 2.0 * (jitterRot * 180)) 360
                         | None \<Rightarrow> patternStampRotation st);
          rad = (instanceRot + patternAngle st) * pi / 180;
          instanceScale = (case r2 of Some v \<Rightarrow> patternScale st * max 0.1 (1.0 + (v - 0.5) * 2.0 * jitterScale)
                           | None \<Rightarrow> patternScale st);
          scaleFactor = (50 / fst patternImg) * instanceScale;
          drawW = fst patternImg * scaleFactor; drawH = snd patternImg * scaleFactor
      in \<lparr>st_x = tx, st_y = ty, st_rad = rad,
          st_hue = map_option (\<lambda>v. (v - 0.5) * 360 * jitterHue) r3,
          st_sat = map_option (\<lambda>v. max 0 (100 + (v - 0.5) * 200 * jitterSat)) r4,
          st_val = map_option (\<lambda>v. max 0 (100 + (v - 0.5) * 200 * jitterVal)) r5,
          st_w = drawW, st_h = drawH\<rparr>)"

text \<open>\<open>Math.random()\<close> is the stream \<open>rnd\<close>, read at the number of calls made so far.\<close>

definition draw_random :: "(nat \<Rightarrow> real) \<Rightarrow> bool \<Rightarrow> nat \<Rightarrow> real option \<times> nat" where
  "draw_random rnd wanted rc = (if wanted then (Some (rnd rc), Suc rc) else (None, rc))"

definition line_stamp :: "BrushSettings \<Rightarrow> (nat \<Rightarrow> real) \<Rightarrow> real \<times> real \<Rightarrow> real \<Rightarrow> real \<Rightarrow> real \<Rightarrow> real
    \<Rightarrow> nat \<Rightarrow> nat \<Rightarrow> stamp \<times> nat" where
  "line_stamp st rnd patternImg x1 y1 stepX stepY i rc =
     (let cx = x1 + stepX * real i; cy = y1 + stepY * real i;
          (r1, rc) = draw_random rnd (patternJitterRotation st > 0) rc;
          (r2, rc) = draw_random rnd (patternJitterScale st > 0) rc;
          (r3, rc) = draw_random rnd (patternJitterHue st > 0) rc;
          (r4, rc) = draw_random rnd (patternJitterSaturation st > 0) rc;
          (r5, rc) = draw_random rnd (patternJitterValue st > 0) rc
      in (pattern_stamp st patternImg cx cy r1 r2 r3 r4 r5, rc))"

fun line_loop :: "BrushSettings \<Rightarrow> (nat \<Rightarrow> real) \<Rightarrow> real \<times> real \<Rightarrow> real \<Rightarrow> real \<Rightarrow> real \<Rightarrow> real
    \<Rightarrow> nat list \<Rightarrow> nat \<Rightarrow> stamp list \<times> nat" where
  "line_loop st rnd patternImg x1 y1 stepX stepY [] rc = ([], rc)"
| "line_loop st rnd patternImg x1 y1 stepX stepY (i # is) rc =
     (let (sp, rc1) = line_stamp st rnd patternImg x1 y1 stepX stepY i rc;
          (sps, rc2) = line_loop st rnd patternImg x1 y1 stepX stepY is rc1
      in (sp # sps, rc2))"

text \<open>The quantities the two guards test, as the source computes them.\<close>

definition pattern_spacing :: "BrushSettings \<Rightarrow> real" where
  "pattern_spacing st = (let baseVisualSize = max 15 (50 * patternScale st) in max 5 (baseVisualSize * 0.5))"

definition pattern_line_steps :: "BrushSettings \<Rightarrow> real \<Rightarrow> real \<Rightarrow> real \<Rightarrow> real \<Rightarrow> int" where
  "pattern_line_steps st x1 y1 x2 y2 =
     (let dx = x2 - x1; dy = y2 - y1; len = sqrt (dx * dx + dy * dy)
      in \<lceil>len / pattern_spacing st\<rceil>)"

definition drawPatternLine :: "rasterizer \<Rightarrow> (nat \<Rightarrow> real) \<Rightarrow> real \<Rightarrow> real \<Rightarrow> real \<Rightarrow> real \<Rightarrow> engine \<Rightarrow> engine" where
  "drawPatternLine rz rnd x1 y1 x2 y2 s =
     (case getActiveContext s of
        None \<Rightarrow> s
      | Some slot \<Rightarrow>
          (case patternImage s of
             None \<Rightarrow> s
           | Some patternImg \<Rightarrow>
               let dx = x2 - x1; dy = y2 - y1; len = sqrt (dx * dx + dy * dy)
               in if len < 1 then s
                  else
                    let st = settingsRef s; spacing = pattern_spacing st;
                        steps = pattern_line_steps st x1 y1 x2 y2
                    in if steps > 2000 then s
                       else
                         let stepX = (dx / len) * spacing; stepY = (dy / len) * spacing;
                             (stamps, rc) = line_loop st rnd patternImg x1 y1 stepX stepY
                                              [0..<nat steps + 1] (randomCalls s);
                             drawn = foldl (\<lambda>c sp. rz_stamp rz [] sp c) (ls_canvas slot) stamps
                         in commitHistory (set_active_canvas drawn (s\<lparr>randomCalls := rc\<rparr>))))"

text \<open>
  \<open>for (g = start; g < limit; g += step)\<close>: the values \<open>g\<close> takes. The step of the pattern grid is
  at least 12, so the test \<open>0 < step\<close> never decides.
\<close>

function grid_range :: "real \<Rightarrow> real \<Rightarrow> real \<Rightarrow> real list" where
  "grid_range g limit step =
     (if g < limit \<and> 0 < step then g # grid_range (g + step) limit step else [])"
  by pat_completeness auto
termination
proof (relation "measure (\<lambda>(g, limit, step). nat \<lceil>(limit - g) / step\<rceil>)")
  show "wf (measure (\<lambda>(g, limit, step). nat \<lceil>(limit - g) / step\<rceil>))" by simp
next
  fix g limit step :: real
  assume a: "g < limit \<and> 0 < step"
  then have "(limit - (g + step)) / step = (limit - g) / step - 1"
    by (simp add: field_simps)
  moreover have "0 < (limit - g) / step" using a by simp
  then have "0 < \<lceil>(limit - g) / step\<rceil>" by simp
  ultimately show "((g + step, limit, step), (g, limit, step)) \<in> measure (\<lambda>(g, limit, step). nat \<lceil>(limit - g) / step\<rceil>)"
    by simp
qed

declare grid_range.simps [simp del]

definition lasso_stamp :: "BrushSettings \<Rightarrow> real \<times> real \<Rightarrow> real \<Rightarrow> real \<Rightarrow> real \<Rightarrow> real \<Rightarrow> stamp" where
  "lasso_stamp st patternImg stepX stepY gx gy =
     (let seed = sin (gx * 12.9898 + gy * 78.233) * 43758.5453;
          rand1 = seed - of_int \<lfloor>seed\<rfloor>;
          rand2 = (seed * 1.5) - of_int \<lfloor>seed * 1.5\<rfloor>;
          rand3 = (seed * 2.0) - of_int \<lfloor>seed * 2.0\<rfloor>;
          rand4 = js_rem (seed * 13.37) 1;
          rand5 = js_rem (seed * 42.42) 1
      in pattern_stamp st patternImg (gx + stepX / 2) (gy + stepY / 2)
           (if patternJitterRotation st > 0 then Some rand1 else None)
           (if patternJitterScale st > 0 then Some rand2 else None)
           (if patternJitterHue st > 0 then Some rand3 else None)
           (if patternJitterSaturation st > 0 then Some \<bar>rand4\<bar> else None)
           (if patternJitterValue st > 0 then Some \<bar>rand5\<bar> else None))"

definition lasso_box :: "BrushSettings \<Rightarrow> (real \<times> real) list \<Rightarrow> real \<times> real \<times> real \<times> real" where
  "lasso_box st points =
     (let minX = foldl min (fst (points ! 0)) (map fst points);
          maxX = foldl max (fst (points ! 0)) (map fst points);
          minY = foldl min (snd (points ! 0)) (map snd points);
          maxY = foldl max (snd (points ! 0)) (map snd points);
          padding = max 20 (50 * patternScale st)
      in (minX - padding, maxX + padding, minY - padding, maxY + padding))"

definition pattern_lasso_cols :: "BrushSettings \<Rightarrow> (real \<times> real) list \<Rightarrow> real" where
  "pattern_lasso_cols st points =
     (let (minX, maxX, minY, maxY) = lasso_box st points;
          baseVisualSize = max 15 (50 * patternScale st); stepX = baseVisualSize * 0.8
      in (maxX - minX) / stepX)"

definition pattern_lasso_rows :: "BrushSettings \<Rightarrow> (real \<times> real) list \<Rightarrow> real" where
  "pattern_lasso_rows st points =
     (let (minX, maxX, minY, maxY) = lasso_box st points;
          baseVisualSize = max 15 (50 * patternScale st); stepY = baseVisualSize * 0.8
      in (maxY - minY) / stepY)"

definition drawPatternLasso :: "rasterizer \<Rightarrow> (real \<times> real) list \<Rightarrow> engine \<Rightarrow> engine" where
  "drawPatternLasso rz points s =
     (case getActiveContext s of
        None \<Rightarrow> s
      | Some slot \<Rightarrow>
          (case patternImage s of
             None \<Rightarrow> s
           | Some patternImg \<Rightarrow>
               if length points < 3 then s
               else
                 let st = settingsRef s;
                     (minX, maxX, minY, maxY) = lasso_box st points;
                     baseVisualSize = max 15 (50 * patternScale st);
                     stepX = baseVisualSize * 0.8; stepY = baseVisualSize * 0.8;
                     cols = pattern_lasso_cols st points; rows = pattern_lasso_rows st points
                 in if cols * rows > 5000 then s
                    else
                      let startGridX = of_int \<lfloor>minX / stepX\<rfloor> * stepX;
                          startGridY = of_int \<lfloor>minY / stepY\<rfloor> * stepY;
                          stamps = concat (map (\<lambda>gy. map (\<lambda>gx. lasso_stamp st patternImg stepX stepY gx gy)
                                                         (grid_range startGridX maxX stepX))
                                               (grid_range startGridY maxY stepY));
                          c1 = foldl (\<lambda>c sp. rz_stamp rz points sp c) (ls_canvas slot) stamps;
                          c2 = (if useTexture st \<and> heightMapPattern s then rz_texture rz points c1 else c1);
                          c3 = (case maskCanvas s of
                                  Some m \<Rightarrow> rz_mask rz m (real (cv_width (ls_canvas slot)) / pixelRatio s)
                                              (real (cv_height (ls_canvas slot)) / pixelRatio s) c2
                                | None \<Rightarrow> c2)
                      in commitHistory (set_active_canvas c3 s)))"

subsection \<open>Strokes: startStroke, drawSegment\<close>

text \<open>
  A stroke is \<open>startStroke\<close> followed by batches of pointer events, each event handed to
  \<open>drawSegment\<close>.  The model follows what \<open>drawSegment\<close> does to the stroke state: the brush
  angle, the bristles' colour and paint flag, the paint load, the last point and the calls of
  \<open>Math.random\<close>.  The dabs it fills on the scratch canvas are not read back inside
  \<open>drawSegment\<close> and are left out.  Numbers are reals.
\<close>

record WetBuffer =
  wb_data :: "byte list"
  wb_width :: int
  wb_height :: int
  wb_x :: int
  wb_y :: int

text \<open>\<open>v | 0\<close>: truncation towards zero, then wrap-around to 32 bits.\<close>

definition to_int32 :: "real \<Rightarrow> int" where
  "to_int32 v = sint (word_of_int (if v < 0 then \<lceil>v\<rceil> else \<lfloor>v\<rfloor>) :: 32 word)"

definition atan2 :: "real \<Rightarrow> real \<Rightarrow> real" where
  "atan2 dy dx =
     (if dx > 0 then arctan (dy / dx)
      else if dx < 0 then (if dy \<ge> 0 then arctan (dy / dx) + pi else arctan (dy / dx) - pi)
      else if dy > 0 then pi / 2 else if dy < 0 then - pi / 2 else 0)"

text \<open>The loop \<open>while (d < limit) d += step\<close>; the source runs it with the step \<open>2 * pi\<close>.\<close>

function add_while_below :: "real \<Rightarrow> real \<Rightarrow> real \<Rightarrow> real" where
  "add_while_below d limit step =
     (if d < limit \<and> 0 < step then add_while_below (d + step) limit step else d)"
  by pat_completeness auto
termination
proof (relation "measure (\<lambda>(d, limit, step). nat \<lceil>(limit - d) / step\<rceil>)")
  show "wf (measure (\<lambda>(d, limit, step). nat \<lceil>(limit - d) / step\<rceil>))" by simp
next
  fix d limit step :: real
  assume a: "d < limit \<and> 0 < step"
  then have "(limit - (d + step)) / step = (limit - d) / step - 1"
    by (simp add: field_simps)
  moreover have "0 < (limit - d) / step" using a by simp
  then have "0 < \<lceil>(limit - d) / step\<rceil>" by simp
  ultimately show "((d + step, limit, step), (d, limit, step)) \<in> measure (\<lambda>(d, limit, step). nat \<lceil>(limit - d) / step\<rceil>)"
    by simp
qed

declare add_while_below.simps [simp del]

text \<open>
  \<open>while (diff < -PI) diff += 2 * PI; while (diff > PI) diff -= 2 * PI\<close>; the second loop
  is the first one on the negated value.
\<close>

definition normalize_diff :: "real \<Rightarrow> real" where
  "normalize_diff diff =
     (let up = add_while_below diff (- pi) (pi * 2)
      in - add_while_below (- up) (- pi) (pi * 2))"

text \<open>
  What one iteration of the interpolation loop hands to the bristle loop.  With \<open>steps = 0\<close>
  the source computes \<open>t = 0 / 0\<close>, so that the interpolated position and pressure are NaN:
  every comparison with them is false and \<open>NaN | 0\<close> is 0.  The flag \<open>e_nan\<close> records that case.
\<close>

record segment_env =
  e_settings :: BrushSettings
  e_dpr :: real
  e_wet :: "WetBuffer option"
  e_rnd :: "nat \<Rightarrow> real"
  e_nan :: bool
  e_speedFactor :: real
  e_tiltMag :: real
  e_curX :: real
  e_curY :: real
  e_curPressure :: real
  e_currentSize :: real

definition isPastelType :: "BrushSettings \<Rightarrow> bool" where
  "isPastelType st = (brushType st = Pastel \<or> brushType st = Pastel2)"

definition wet_lookup :: "WetBuffer \<Rightarrow> int \<Rightarrow> int \<Rightarrow> rgb option" where
  "wet_lookup wb pX pY =
     (let localX = pX - wb_x wb; localY = pY - wb_y wb
      in if localX \<ge> 0 \<and> localY \<ge> 0 \<and> localX < wb_width wb \<and> localY < wb_height wb
         then
           let idx = nat ((localY * wb_width wb + localX) * 4)
           in if idx + 3 < length (wb_data wb) \<and> uint (wb_data wb ! (idx + 3)) > 20
              then Some \<lparr>c_r = real_of_int (uint (wb_data wb ! idx)),
                         c_g = real_of_int (uint (wb_data wb ! (idx + 1))),
                         c_b = real_of_int (uint (wb_data wb ! (idx + 2)))\<rparr>
              else None
         else None)"

definition wet_exchange :: "rgb \<Rightarrow> Bristle \<Rightarrow> real \<Rightarrow> Bristle \<times> real" where
  "wet_exchange existingColor bristle load =
     (if \<not> hasPaint bristle
      then (bristle\<lparr>b_color := existingColor, hasPaint := True\<rparr>, max load 0.5)
      else (bristle\<lparr>b_color := mixPigmentsFloatInPlace (b_color bristle) existingColor 0.1\<rparr>,
            min 1 (load + 0.05)))"

text \<open>
  The first half of the bristle loop's body: the geometry of the dab and the dry-brush test.
  None is the \<open>continue\<close> of that test; otherwise the position of the dab and the number of
  random calls made so far.
\<close>

definition bristle_target :: "segment_env \<Rightarrow> real \<Rightarrow> real \<Rightarrow> real \<Rightarrow> nat \<Rightarrow> Bristle \<Rightarrow> real \<Rightarrow> nat
    \<Rightarrow> (real \<times> real \<times> nat) option" where
  "bristle_target env instanceAngle instanceSize instanceSquash b bristle load rc =
     (let st = e_settings env;
          isFan2 = (brushType st = Fan2); isFan3 = (brushType st = Fan3);
          pastel = isPastelType st;
          curX = e_curX env; curY = e_curY env; curPressure = e_curPressure env;
          currentSize = e_currentSize env;
          iCos = cos instanceAngle; iSin = sin instanceAngle;
          bx = b_dx bristle * instanceSize;
          by = b_dy bristle * instanceSize * instanceSquash;
          bx = (if isFan2 then bx * (0.8 + (e_tiltMag env * 0.4)) else bx);
          bx = (if isFan3 \<and> \<not> pastel then b_dx bristle * currentSize * (1.0 + curPressure ^ 2 * 4.0) else bx);
          by = (if isFan3 \<and> \<not> pastel \<and> curPressure > 0.25
                then by + (sin (real b * 0.5) * ((curPressure - 0.25) * 1.5) * currentSize * 0.4) else by);
          noise = (sin (curX * 0.2) + cos (curY * 0.2)) * 0.1;
          dryThreshold = (1 - load) * 0.5 + (e_speedFactor env * 0.3);
          skipped = (\<not> pastel \<and> \<not> e_nan env \<and> dryThreshold + noise > drySensitivity bristle)
      in if skipped then None
         else
           let rx = bx * iCos - by * iSin; ry = bx * iSin + by * iCos;
               scatterX = (if pastel then (e_rnd env rc - 0.5) * instanceSize * 0.03 else 0);
               scatterY = (if pastel then (e_rnd env (rc + 1) - 0.5) * instanceSize * 0.03 else 0);
               rc = (if pastel then rc + 2 else rc);
               finalX = curX + rx + scatterX; finalY = curY + ry + scatterY
           in Some (finalX, finalY, rc))"

text \<open>The second half: the lookup in the wet buffer and the exchange of paint with it.\<close>

definition bristle_step :: "segment_env \<Rightarrow> real \<Rightarrow> real \<Rightarrow> real \<Rightarrow> nat \<Rightarrow> Bristle \<Rightarrow> real \<Rightarrow> nat
    \<Rightarrow> Bristle \<times> real \<times> nat" where
  "bristle_step env instanceAngle instanceSize instanceSquash b bristle load rc =
     (case bristle_target env instanceAngle instanceSize instanceSquash b bristle load rc of
        None \<Rightarrow> (bristle, load, rc)
      | Some (finalX, finalY, rc) \<Rightarrow>
          (case (if wetMode (e_settings env) then e_wet env else None) of
             None \<Rightarrow> (bristle, load, rc)
           | Some wetBuffer \<Rightarrow>
               let pX = (if e_nan env then 0 else to_int32 (finalX * e_dpr env));
                   pY = (if e_nan env then 0 else to_int32 (finalY * e_dpr env))
               in (case wet_lookup wetBuffer pX pY of
                     None \<Rightarrow> (bristle, load, rc)
                   | Some existingColor \<Rightarrow>
                       (let (bristle', load') = wet_exchange existingColor bristle load
                        in (bristle', load', rc)))))"

fun bristles_pass :: "segment_env \<Rightarrow> real \<Rightarrow> real \<Rightarrow> real \<Rightarrow> nat \<Rightarrow> Bristle list \<Rightarrow> real \<Rightarrow> nat
    \<Rightarrow> Bristle list \<times> real \<times> nat" where
  "bristles_pass env instanceAngle instanceSize instanceSquash b [] load rc = ([], load, rc)"
| "bristles_pass env instanceAngle instanceSize instanceSquash b (bristle # rest) load rc =
     (let (bristle', load1, rc1) = bristle_step env instanceAngle instanceSize instanceSquash b bristle load rc;
          (rest', load2, rc2) = bristles_pass env instanceAngle instanceSize instanceSquash (b + 1) rest load1 rc1
      in (bristle' # rest', load2, rc2))"

definition instance_pass :: "segment_env \<Rightarrow> real \<Rightarrow> Bristle list \<Rightarrow> real \<Rightarrow> nat \<Rightarrow> Bristle list \<times> real \<times> nat" where
  "instance_pass env angle_now bs load rc =
     (if isPastelType (e_settings env)
      then
        let instanceAngle = e_rnd env rc * pi * 2;
            sizeJitter = 0.08;
            instanceSize = e_currentSize env * (1.0 - (e_rnd env (rc + 1) * sizeJitter));
            instanceSize = instanceSize * (0.4 + e_curPressure env * 0.6);
            instanceSquash = 1.0 - (e_rnd env (rc + 2) * 0.06)
        in bristles_pass env instanceAngle instanceSize instanceSquash 0 bs load (rc + 3)
      else bristles_pass env angle_now (e_currentSize env) 1.0 0 bs load rc)"

fun instances_loop :: "segment_env \<Rightarrow> real \<Rightarrow> nat \<Rightarrow> Bristle list \<Rightarrow> real \<Rightarrow> nat \<Rightarrow> Bristle list \<times> real \<times> nat" where
  "instances_loop env angle_now 0 bs load rc = (bs, load, rc)"
| "instances_loop env angle_now (Suc n) bs load rc =
     (let (bs1, load1, rc1) = instance_pass env angle_now bs load rc
      in instances_loop env angle_now n bs1 load1 rc1)"

definition depletion_of :: "BrushSettings \<Rightarrow> real \<Rightarrow> real \<Rightarrow> real \<Rightarrow> real" where
  "depletion_of st load speedFactor stepSize =
     (let depletionRate = (if wetMode st then 0.0001 else 0.0003);
          depletionRate = (if wetMode st \<and> load < 0.5 then 0.00005 else depletionRate);
          depletionRate = (if isPastelType st \<and> \<not> wetMode st then 0 else depletionRate)
      in depletionRate * (1 + speedFactor * 3) * stepSize)"

text \<open>The values \<open>drawSegment\<close> computes before its interpolation loop.\<close>

record segment_consts =
  sc_settings :: BrushSettings
  sc_dpr :: real
  sc_wet :: "WetBuffer option"
  sc_rnd :: "nat \<Rightarrow> real"
  sc_last :: Point
  sc_x :: real
  sc_y :: real
  sc_pressure :: real
  sc_steps :: int
  sc_stepSize :: real
  sc_speedFactor :: real
  sc_tiltMag :: real
  sc_angle :: real

definition step_env :: "segment_consts \<Rightarrow> nat \<Rightarrow> segment_env" where
  "step_env k i =
     (let st = sc_settings k; lastPoint = sc_last k;
          t = real i / real_of_int (sc_steps k);
          curX = p_x lastPoint + (sc_x k - p_x lastPoint) * t;
          curY = p_y lastPoint + (sc_y k - p_y lastPoint) * t;
          curPressure = pressure lastPoint + (sc_pressure k - pressure lastPoint) * t;
          baseSize = size st;
          currentSize = (if pressureSensitivity st \<and> brushType st \<noteq> Fan2 \<and> brushType st \<noteq> Fan3 \<and> \<not> isPastelType st
                         then baseSize * curPressure else baseSize)
      in \<lparr>e_settings = st, e_dpr = sc_dpr k, e_wet = sc_wet k, e_rnd = sc_rnd k,
          e_nan = (sc_steps k = 0), e_speedFactor = sc_speedFactor k, e_tiltMag = sc_tiltMag k,
          e_curX = curX, e_curY = curY, e_curPressure = curPressure, e_currentSize = currentSize\<rparr>)"

fun steps_loop :: "segment_consts \<Rightarrow> nat list \<Rightarrow> Bristle list \<Rightarrow> real \<Rightarrow> nat \<Rightarrow> Bristle list \<times> real \<times> nat" where
  "steps_loop k [] bs load rc = (bs, load, rc)"
| "steps_loop k (i # is) bs load rc =
     (let st = sc_settings k;
          depletion = depletion_of st load (sc_speedFactor k) (sc_stepSize k);
          load1 = max 0 (load - depletion);
          instanceCount = (if isPastelType st then 2 else 1);
          (bs1, load2, rc1) = instances_loop (step_env k i) (sc_angle k) instanceCount bs load1 rc
      in steps_loop k is bs1 load2 rc1)"

text \<open>\<open>tempCtxRef\<close> is set together with the mask context, on the scratch canvas.\<close>

definition tempCtxRef :: "engine \<Rightarrow> canvas option" where
  "tempCtxRef s = (if maskCtx s then temp s else None)"

definition drawSegment :: "(nat \<Rightarrow> real) \<Rightarrow> real \<Rightarrow> real \<Rightarrow> real \<Rightarrow> real option \<Rightarrow> real option
    \<Rightarrow> WetBuffer option \<Rightarrow> engine \<Rightarrow> engine" where
  "drawSegment rnd x y pressure_in tiltX_in tiltY_in wetBuffer s =
     (if \<not> isDrawing s \<or> getActiveContext s = None \<or> tempCtxRef s = None then s
      else
        let lastPoint = lastPoint s; currentSettings = settingsRef s;
            isFan2 = (brushType currentSettings = Fan2); isFan3 = (brushType currentSettings = Fan3);
            isPastel = (brushType currentSettings = Pastel); isPastel2 = (brushType currentSettings = Pastel2);
            dx = x - p_x lastPoint; dy = y - p_y lastPoint;
            dist = sqrt (dx * dx + dy * dy);
            baseSize = size currentSettings;
            spacingFactor = (if pressureSensitivity currentSettings
                             then 0.08 * max 0.15 (min (pressure lastPoint) pressure_in) else 0.08);
            stepSize = max 1.5 (baseSize * spacingFactor);
            stepSize = (if isPastel then max 1.5 (baseSize * 0.22) else stepSize);
            stepSize = (if isPastel2 then max 1.5 (baseSize * 0.25) else stepSize)
        in if dist < stepSize \<and> hasMoved s then s
           else
             let steps = \<lceil>dist / stepSize\<rceil>;
                 s1 = (if dist > 4
                       then
                         let targetAngle = atan2 (y - p_y lastPoint) (x - p_x lastPoint)
                         in if \<not> hasMoved s then s\<lparr>angle := targetAngle, hasMoved := True\<rparr>
                            else
                              let rotateSpeed = (if brushType currentSettings = Chisel then 0.35 else 0.08);
                                  diff = normalize_diff (targetAngle - angle s)
                              in s\<lparr>angle := angle s + diff * rotateSpeed\<rparr>
                       else s);
                 tiltMag = (case (tiltX_in, tiltY_in) of
                              (Some tx, Some ty) \<Rightarrow> min 1 (max \<bar>tx\<bar> \<bar>ty\<bar> / 60)
                            | _ \<Rightarrow> 0.5);
                 rotationOffset = (case tiltX_in of
                                     Some tx \<Rightarrow> if isFan2 \<or> isFan3 then (tx / 45) * (pi / 4) else 0
                                   | None \<Rightarrow> 0);
                 angle_now = angle s1 + pi / 2 + rotationOffset;
                 speedFactor = min (dist / 15) 1.0;
                 k = \<lparr>sc_settings = currentSettings, sc_dpr = pixelRatio s, sc_wet = wetBuffer, sc_rnd = rnd,
                      sc_last = lastPoint, sc_x = x, sc_y = y, sc_pressure = pressure_in, sc_steps = steps,
                      sc_stepSize = stepSize, sc_speedFactor = speedFactor, sc_tiltMag = tiltMag,
                      sc_angle = angle_now\<rparr>;
                 (bs, load, rc) = steps_loop k [0..<nat steps + 1] (bristles s1) (paintLoad s1) (randomCalls s1)
             in s1\<lparr>bristles := bs, paintLoad := load, randomCalls := rc,
                    lastPoint := \<lparr>p_x = x, p_y = y, pressure = pressure_in, tiltX = tiltX_in, tiltY = tiltY_in\<rparr>\<rparr>)"

definition startStroke :: "real \<Rightarrow> real \<Rightarrow> real \<Rightarrow> real \<Rightarrow> real \<Rightarrow> engine \<Rightarrow> engine" where
  "startStroke x y pressure_in tiltX_in tiltY_in s =
     (let s1 = s\<lparr>isDrawing := True,
                  lastPoint := \<lparr>p_x = x, p_y = y, pressure = pressure_in, tiltX = Some tiltX_in, tiltY = Some tiltY_in\<rparr>\<rparr>;
          s2 = (if autoClean (settingsRef s1)
                then
                  let freshColor = rgb_of_hex (color (settingsRef s1))
                  in s1\<lparr>bristles := map (\<lambda>b. if wetMode (settingsRef s1) then b\<lparr>hasPaint := False\<rparr>
                                               else b\<lparr>b_color := freshColor, hasPaint := True\<rparr>) (bristles s1),
                        paintLoad := 1.0\<rparr>
                else s1\<lparr>paintLoad := max (paintLoad s1) 0.5\<rparr>)
      in s2\<lparr>hasMoved := False\<rparr>)"

text \<open>The \<open>forEach\<close> of \<open>drawBatch\<close> over the events it kept, all with the same wet buffer.\<close>

definition drawSegments :: "(nat \<Rightarrow> real) \<Rightarrow> Point list \<Rightarrow> WetBuffer option \<Rightarrow> engine \<Rightarrow> engine" where
  "drawSegments rnd points wetBuffer s =
     foldl (\<lambda>s p. drawSegment rnd (p_x p) (p_y p) (pressure p) (tiltX p) (tiltY p) wetBuffer s) s points"

subsection \<open>Initial and sample states\<close>

definition default_settings :: BrushSettings where
  \<comment> \<open>the settings the application starts with\<close>
  "default_settings =
     \<lparr>brushType = Flat, size = 60, opacity = 9 / 10, color = ''#caa24f'', wetMode = False,
      pressureSensitivity = True, useTexture = True, colorVariation = 1 / 10, hueVariation = 5 / 100,
      autoClean = True, patternScale = 1, patternAngle = 0, patternStampRotation = 0,
      patternJitterScale = 0, patternJitterRotation = 0, patternJitterHue = 0,
      patternJitterSaturation = 0, patternJitterValue = 0\<rparr>"

definition initial_engine :: "BrushSettings \<Rightarrow> real \<Rightarrow> engine" where
  \<comment> \<open>the refs and the state \<open>useGouacheEngine\<close> creates\<close>
  "initial_engine settings ratio =
     \<lparr>layerCanvases = [], maskCanvas = None, maskCtx = False, temp = None, composite = None,
      heightMapPattern = False, patternImage = None, activeLayerId = ''layer-1'',
      pixelRatio = ratio, settingsRef = settings, isDrawing = False,
      lastPoint = \<lparr>p_x = 0, p_y = 0, pressure = 1 / 2, tiltX = Some 0, tiltY = Some 0\<rparr>,
      angle = 0, hasMoved = False, paintLoad = 1, bristles = [], history = [], historyIndex = - 1,
      randomCalls = 0\<rparr>"

definition tiny_engine :: engine where
  \<comment> \<open>a one-pixel document after \<open>init\<close> committed its blank baseline and the pixel was painted\<close>
  "tiny_engine =
     (initial_engine default_settings 1)
       \<lparr>layerCanvases :=
          [(''layer-1'', \<lparr>ls_canvas = \<lparr>cv_width = 1, cv_height = 1, cv_data = [202, 162, 79, 255]\<rparr>,
                          ls_ctx = True\<rparr>)],
        maskCanvas := Some \<lparr>cv_width = 1, cv_height = 1, cv_data = [0, 0, 0, 0]\<rparr>,
        maskCtx := True,
        temp := Some \<lparr>cv_width = 1, cv_height = 1, cv_data = [0, 0, 0, 0]\<rparr>,
        history := [\<lparr>layerId = ''layer-1'',
                     painting = \<lparr>i_width = 1, i_height = 1, i_data = [0, 0, 0, 0]\<rparr>,
                     h_mask = \<lparr>i_width = 1, i_height = 1, i_data = [0, 0, 0, 0]\<rparr>\<rparr>],
        historyIndex := 0\<rparr>"


definition stroke_engine :: engine where
  \<comment> \<open>the one-pixel document with a single loaded bristle, after the pen has touched down at the origin\<close>
  "stroke_engine =
     startStroke 0 0 (1 / 2) 0 0
       (tiny_engine\<lparr>bristles :=
          [\<lparr>b_dx = 0, b_dy = 0, b_length = 1, b_thickness = 1, tempBias = 0, hueBias = 0, feather = 0,
            drySensitivity = 1 / 2, b_color = \<lparr>c_r = 202, c_g = 162, c_b = 79\<rparr>, hasPaint = True,
            normX = None, normY = None\<rparr>]\<rparr>)"

subsection \<open>Properties stated about the history\<close>

definition history_bytes :: "HistoryState list \<Rightarrow> int" where
  \<comment> \<open>the bytes all snapshots of a history hold\<close>
  "history_bytes h = sum_list (map entry_bytes h)"

definition history_inv :: "engine \<Rightarrow> bool" where
  \<comment> \<open>what holds of the history between operations: the two bounds, and the pointer is on an
      entry or at \<open>-1\<close>\<close>
  "history_inv s =
     (length (history s) \<le> 20 \<and> history_bytes (history s) \<le> MAX_HISTORY_BYTES
      \<and> - 1 \<le> historyIndex s \<and> historyIndex s < int (length (history s)))"

subsection \<open>Properties stated about updateSize\<close>

definition snapshot_of :: "engine \<Rightarrow> HistoryState option" where
  \<comment> \<open>the entry \<open>commitHistory\<close> pushes in a state, when its guards let it push one\<close>
  "snapshot_of s =
     (case getActiveSlot s of
        None \<Rightarrow> None
      | Some slot \<Rightarrow>
          (case maskCtxRef s of
             None \<Rightarrow> None
           | Some m \<Rightarrow>
               if ls_ctx slot \<and> 0 < cv_width (ls_canvas slot) \<and> 0 < cv_height (ls_canvas slot)
               then Some \<lparr>layerId = activeLayerId s,
                          painting = getImageData (ls_canvas slot) (cv_width (ls_canvas slot)) (cv_height (ls_canvas slot)),
                          h_mask = getImageData m (cv_width (ls_canvas slot)) (cv_height (ls_canvas slot))\<rparr>
               else None))"

definition fresh_history :: "engine \<Rightarrow> HistoryState list \<times> int" where
  \<comment> \<open>history and index that hold one snapshot of the state itself when one can be taken and
      fits the byte budget, and nothing otherwise\<close>
  "fresh_history s =
     (case snapshot_of s of
        Some e \<Rightarrow> if entry_bytes e \<le> MAX_HISTORY_BYTES then ([e], 0) else ([], - 1)
      | None \<Rightarrow> ([], - 1))"


definition has_dims :: "real \<Rightarrow> real \<Rightarrow> canvas \<Rightarrow> bool" where
  \<comment> \<open>the canvas already has the requested size\<close>
  "has_dims nw nh c = (real (cv_width c) = nw \<and> real (cv_height c) = nh)"

definition raster_canvases :: "engine \<Rightarrow> canvas list" where
  \<comment> \<open>the mask canvas and the layer canvases, the ones whose resize resets the history\<close>
  "raster_canvases s =
     (case maskCanvas s of Some m \<Rightarrow> [m] | None \<Rightarrow> []) @ map (ls_canvas \<circ> snd) (layerCanvases s)"

section \<open>Colour theorems\<close>

lemma rgbToCmyk_cyan: "rgbToCmyk 0 255 255 = \<lparr>k_c = 1, k_m = 0, k_y = 0, k_k = 0\<rparr>"
  by (simp add: rgbToCmyk_def Let_def)

lemma rgbToCmyk_yellow: "rgbToCmyk 255 255 0 = \<lparr>k_c = 0, k_m = 0, k_y = 1, k_k = 0\<rparr>"
  by (simp add: rgbToCmyk_def Let_def)

lemma mixPigments_cyan_yellow:
  "mixPigments \<lparr>c_r = 0, c_g = 255, c_b = 255\<rparr> \<lparr>c_r = 255, c_g = 255, c_b = 0\<rparr> (1 / 2)
     = \<lparr>c_r = 128, c_g = 255, c_b = 128\<rparr>"
  by (simp add: mixPigments_def Let_def rgbToCmyk_cyan rgbToCmyk_yellow cmykToRgb_def js_round_def)

text \<open>
  C1. \<open>mixPigments\<close> converts both colours to CMYK, interpolates every channel linearly by
  \<open>t\<close>, converts back and rounds; mixing pure cyan and pure yellow at \<open>t = 0.5\<close> gives
  (128, 255, 128), whose green channel is strictly above its red and its blue channel.
  Every intermediate value of this instance is exactly representable in binary64, so the
  real-number model and the floating-point run agree on it.
\<close>

theorem C1_mixPigments_cmyk_green:
  "mixPigments c1 c2 t =
     (let p = rgbToCmyk (c_r c1) (c_g c1) (c_b c1); q = rgbToCmyk (c_r c2) (c_g c2) (c_b c2);
          res = cmykToRgb (lerp (k_c p) (k_c q) t) (lerp (k_m p) (k_m q) t)
                          (lerp (k_y p) (k_y q) t) (lerp (k_k p) (k_k q) t)
      in \<lparr>c_r = js_round (c_r res), c_g = js_round (c_g res), c_b = js_round (c_b res)\<rparr>)
   \<and> (let mixed = mixPigments \<lparr>c_r = 0, c_g = 255, c_b = 255\<rparr> \<lparr>c_r = 255, c_g = 255, c_b = 0\<rparr> (1 / 2)
      in c_g mixed > c_r mixed \<and> c_g mixed > c_b mixed \<and> mixed = \<lparr>c_r = 128, c_g = 255, c_b = 128\<rparr>)"
  by (simp add: mixPigments_cyan_yellow) (simp add: mixPigments_def lerp_def Let_def)

subsection \<open>The hexadecimal round trip\<close>

lemma sint_word_of_int_small: "0 \<le> y \<Longrightarrow> y < 2147483648 \<Longrightarrow> sint (word_of_int y :: 32 word) = y"
  by (simp add: int_word_sint)

lemma shl32_small: "0 \<le> x \<Longrightarrow> x < 256 \<Longrightarrow> n \<le> 22 \<Longrightarrow> shl32 x n = x * 2 ^ n"
proof -
  assume a: "0 \<le> x" "x < 256" "n \<le> 22"
  have "x * 2 ^ n < 256 * 2 ^ n" using a by simp
  also have "(256::int) * 2 ^ n = 2 ^ (n + 8)" by (simp add: power_add)
  also have "\<dots> \<le> 2 ^ 30" using a by (intro power_increasing) auto
  finally have ub: "x * 2 ^ n < 2147483648" by simp
  have lb: "0 \<le> x * 2 ^ n" using a by simp
  have "push_bit n (word_of_int x :: 32 word) = word_of_int (x * 2 ^ n)"
    by (simp add: push_bit_eq_mult)
  then have "shl32 x n = sint (word_of_int (x * 2 ^ n) :: 32 word)" by (simp add: shl32_def)
  also have "\<dots> = x * 2 ^ n"
    using lb ub by (rule sint_word_of_int_small)
  finally show ?thesis .
qed

lemma shl32_1_24: "shl32 1 24 = 16777216"
  by (simp add: shl32_def)

lemma hex_digit_cases:
  "d < 16 \<Longrightarrow> d = 0 \<or> d = 1 \<or> d = 2 \<or> d = 3 \<or> d = 4 \<or> d = 5 \<or> d = 6 \<or> d = 7 \<or> d = 8
     \<or> d = 9 \<or> d = 10 \<or> d = 11 \<or> d = 12 \<or> d = 13 \<or> d = 14 \<or> d = (15::nat)"
  by arith

lemma hex_digit_vals:
  "hex_digit 0 = CHR ''0''" "hex_digit 1 = CHR ''1''" "hex_digit (Suc 0) = CHR ''1''" "hex_digit 2 = CHR ''2''"
  "hex_digit 3 = CHR ''3''" "hex_digit 4 = CHR ''4''" "hex_digit 5 = CHR ''5''"
  "hex_digit 6 = CHR ''6''" "hex_digit 7 = CHR ''7''" "hex_digit 8 = CHR ''8''"
  "hex_digit 9 = CHR ''9''" "hex_digit 10 = CHR ''a''" "hex_digit 11 = CHR ''b''"
  "hex_digit 12 = CHR ''c''" "hex_digit 13 = CHR ''d''" "hex_digit 14 = CHR ''e''"
  "hex_digit 15 = CHR ''f''"
  by (simp_all add: hex_digit_def)

lemma hex_val_hex_digit: "d < 16 \<Longrightarrow> hex_val (hex_digit d) = int d"
  by (drule hex_digit_cases, elim disjE) (simp_all add: hex_digit_vals hex_val_def)

lemma is_hex_char_hex_digit: "d < 16 \<Longrightarrow> is_hex_char (hex_digit d)"
  by (drule hex_digit_cases, elim disjE) (simp_all add: hex_digit_vals is_hex_char_def)

lemma toString16_nat_step: "0 < m \<Longrightarrow> d < 16 \<Longrightarrow> toString16_nat (16 * m + d) = toString16_nat m @ [hex_digit d]"
  by (subst toString16_nat.simps) simp

lemma toString16_nat_digit: "d < 16 \<Longrightarrow> toString16_nat d = [hex_digit d]"
  by (subst toString16_nat.simps) simp

lemma toString16_nat_rgb:
  assumes "r < 256" "g < 256" "b < 256"
  shows "toString16_nat (16777216 + r * 65536 + g * 256 + b) =
     [hex_digit 1, hex_digit (r div 16), hex_digit (r mod 16), hex_digit (g div 16),
      hex_digit (g mod 16), hex_digit (b div 16), hex_digit (b mod 16)]"
proof -
  define rh rl gh gl bh bl where
    "rh = r div 16" and "rl = r mod 16" and "gh = g div 16" and "gl = g mod 16"
    and "bh = b div 16" and "bl = b mod 16"
  have split: "r = 16 * rh + rl" "g = 16 * gh + gl" "b = 16 * bh + bl"
    by (simp_all add: rh_def rl_def gh_def gl_def bh_def bl_def)
  have d: "rh < 16" "rl < 16" "gh < 16" "gl < 16" "bh < 16" "bl < 16"
    using assms by (simp_all add: rh_def rl_def gh_def gl_def bh_def bl_def)
  define m1 where "m1 = 16 * 1 + rh"
  define m2 where "m2 = 16 * m1 + rl"
  define m3 where "m3 = 16 * m2 + gh"
  define m4 where "m4 = 16 * m3 + gl"
  define m5 where "m5 = 16 * m4 + bh"
  have n: "16777216 + r * 65536 + g * 256 + b = 16 * m5 + bl"
    unfolding m5_def m4_def m3_def m2_def m1_def split by simp
  have pos: "0 < m1" "0 < m2" "0 < m3" "0 < m4" "0 < m5"
    unfolding m5_def m4_def m3_def m2_def m1_def by simp_all
  have s1: "toString16_nat 1 = [hex_digit 1]"
    by (rule toString16_nat_digit) simp
  have s2: "toString16_nat m1 = toString16_nat 1 @ [hex_digit rh]"
    unfolding m1_def by (rule toString16_nat_step) (simp_all add: d)
  have s3: "toString16_nat m2 = toString16_nat m1 @ [hex_digit rl]"
    unfolding m2_def by (rule toString16_nat_step) (simp_all add: d pos)
  have s4: "toString16_nat m3 = toString16_nat m2 @ [hex_digit gh]"
    unfolding m3_def by (rule toString16_nat_step) (simp_all add: d pos)
  have s5: "toString16_nat m4 = toString16_nat m3 @ [hex_digit gl]"
    unfolding m4_def by (rule toString16_nat_step) (simp_all add: d pos)
  have s6: "toString16_nat m5 = toString16_nat m4 @ [hex_digit bh]"
    unfolding m5_def by (rule toString16_nat_step) (simp_all add: d pos)
  have s7: "toString16_nat (16 * m5 + bl) = toString16_nat m5 @ [hex_digit bl]"
    by (rule toString16_nat_step) (simp_all add: d pos)
  show ?thesis
    unfolding n s7 s6 s5 s4 s3 s2 s1
    by (simp add: rh_def rl_def gh_def gl_def bh_def bl_def)
qed

lemma parseInt16_pair: "a < 16 \<Longrightarrow> b < 16 \<Longrightarrow> parseInt16 [hex_digit a, hex_digit b] = int (16 * a + b)"
  by (simp add: parseInt16_def hex_val_hex_digit)

lemma rgbToHex_digits:
  assumes "0 \<le> r" "r < 256" "0 \<le> g" "g < 256" "0 \<le> b" "b < 256"
  shows "rgbToHex r g b =
     [CHR ''#'', hex_digit (nat r div 16), hex_digit (nat r mod 16), hex_digit (nat g div 16),
      hex_digit (nat g mod 16), hex_digit (nat b div 16), hex_digit (nat b mod 16)]"
proof -
  have s: "shl32 1 24 + shl32 r 16 + shl32 g 8 + b = 16777216 + r * 65536 + g * 256 + b"
    using assms by (simp add: shl32_1_24 shl32_small)
  have n: "nat (16777216 + r * 65536 + g * 256 + b) = 16777216 + nat r * 65536 + nat g * 256 + nat b"
    using assms by (simp add: nat_add_distrib nat_mult_distrib)
  have "toString16 (16777216 + r * 65536 + g * 256 + b) =
      toString16_nat (16777216 + nat r * 65536 + nat g * 256 + nat b)"
    using assms n by (simp add: toString16_def)
  also have "\<dots> = [hex_digit 1, hex_digit (nat r div 16), hex_digit (nat r mod 16), hex_digit (nat g div 16),
      hex_digit (nat g mod 16), hex_digit (nat b div 16), hex_digit (nat b mod 16)]"
    using assms by (intro toString16_nat_rgb) simp_all
  finally show ?thesis by (simp add: rgbToHex_def s)
qed

text \<open>
  C8. For integer channels in [0,255], formatting a triple with \<open>rgbToHex\<close> and parsing the
  string back with \<open>hexToRgb\<close> returns the triple.
\<close>

theorem C8_hex_roundtrip:
  assumes "0 \<le> r" "r \<le> 255" "0 \<le> g" "g \<le> 255" "0 \<le> b" "b \<le> 255"
  shows "hexToRgb (rgbToHex r g b) = (r, g, b)"
proof -
  have lt: "r < 256" "g < 256" "b < 256" using assms by simp_all
  have d: "nat r div 16 < 16" "nat g div 16 < 16" "nat b div 16 < 16"
          "nat r mod 16 < 16" "nat g mod 16 < 16" "nat b mod 16 < 16"
    using assms by simp_all
  have hx: "rgbToHex r g b =
     [CHR ''#'', hex_digit (nat r div 16), hex_digit (nat r mod 16), hex_digit (nat g div 16),
      hex_digit (nat g mod 16), hex_digit (nat b div 16), hex_digit (nat b mod 16)]"
    using assms lt by (intro rgbToHex_digits) simp_all
  have grp: "regex_hex_groups (rgbToHex r g b) =
     Some ([hex_digit (nat r div 16), hex_digit (nat r mod 16)],
           [hex_digit (nat g div 16), hex_digit (nat g mod 16)],
           [hex_digit (nat b div 16), hex_digit (nat b mod 16)])"
    unfolding hx using d by (simp add: regex_hex_groups_def is_hex_char_hex_digit)
  have rebuilt: "int (16 * (nat r div 16) + nat r mod 16) = r"
     "int (16 * (nat g div 16) + nat g mod 16) = g"
     "int (16 * (nat b div 16) + nat b mod 16) = b"
    using assms by simp_all
  show ?thesis
    unfolding hexToRgb_def grp using d rebuilt by (simp add: parseInt16_pair del: of_nat_add of_nat_mult)
qed

theorem C8_hex_roundtrip_witness:
  "(0::int) \<le> 255 \<and> (0::int) \<le> 160 \<and> (160::int) \<le> 255 \<and> (0::int) \<le> 60 \<and> (60::int) \<le> 255
   \<and> hexToRgb (rgbToHex 255 160 60) = (255, 160, 60)"
  using C8_hex_roundtrip [of 255 160 60] by simp


section \<open>History theorems\<close>

lemma entry_bytes_nonneg: "0 \<le> entry_bytes e"
  by (simp add: entry_bytes_def)

lemma history_bytes_nonneg: "0 \<le> history_bytes h"
  unfolding history_bytes_def by (induction h) (simp_all add: entry_bytes_nonneg)

lemma foldl_entry_bytes: "foldl (\<lambda>acc e. acc + entry_bytes e) a h = a + history_bytes h"
  unfolding history_bytes_def by (induction h arbitrary: a) simp_all

lemma history_bytes_drop_le: "history_bytes (drop k h) \<le> history_bytes h"
proof (induction h arbitrary: k)
  case Nil
  then show ?case by simp
next
  case (Cons e h)
  show ?case
  proof (cases k)
    case 0
    then show ?thesis by simp
  next
    case (Suc j)
    have "history_bytes (drop j h) \<le> history_bytes h" by (rule Cons.IH)
    also have "\<dots> \<le> history_bytes (e # h)"
      using entry_bytes_nonneg [of e] by (simp add: history_bytes_def)
    finally show ?thesis using Suc by simp
  qed
qed

lemma history_bytes_take_le: "history_bytes (take k h) \<le> history_bytes h"
proof -
  have "history_bytes h = history_bytes (take k h) + history_bytes (drop k h)"
    unfolding history_bytes_def by (metis append_take_drop_id map_append sum_list.append)
  then show ?thesis using history_bytes_nonneg [of "drop k h"] by simp
qed

lemma MAX_HISTORY_BYTES_nonneg: "0 \<le> MAX_HISTORY_BYTES"
  by (simp add: MAX_HISTORY_BYTES_def)

lemma evict_spec:
  "evict h (history_bytes h) idx = (h', u', idx') \<Longrightarrow>
     \<exists>k. k \<le> length h \<and> h' = drop k h \<and> idx' = idx - int k \<and> u' = history_bytes h'
         \<and> history_bytes h' \<le> MAX_HISTORY_BYTES"
proof (induction h arbitrary: idx)
  case Nil
  then show ?case by (simp add: history_bytes_def MAX_HISTORY_BYTES_nonneg)
next
  case (Cons e h)
  show ?case
  proof (cases "history_bytes (e # h) > MAX_HISTORY_BYTES")
    case True
    have eq: "history_bytes (e # h) - entry_bytes e = history_bytes h"
      by (simp add: history_bytes_def)
    from Cons.prems True have "evict h (history_bytes h) (idx - 1) = (h', u', idx')"
      by (simp add: eq)
    from Cons.IH [OF this] obtain k where
      k: "k \<le> length h" "h' = drop k h" "idx' = idx - 1 - int k" "u' = history_bytes h'"
         "history_bytes h' \<le> MAX_HISTORY_BYTES"
      by blast
    show ?thesis
      by (rule exI [of _ "Suc k"]) (use k in simp)
  next
    case False
    with Cons.prems have "h' = e # h" "u' = history_bytes (e # h)" "idx' = idx" by auto
    then show ?thesis using False by (intro exI [of _ 0]) simp
  qed
qed

lemma commitHistory_unfold:
  assumes slot: "getActiveSlot s = Some slot" and m: "maskCtxRef s = Some m"
    and ctx: "ls_ctx slot" and w: "0 < cv_width (ls_canvas slot)" and h: "0 < cv_height (ls_canvas slot)"
  defines "e \<equiv> \<lparr>layerId = activeLayerId s,
                  painting = getImageData (ls_canvas slot) (cv_width (ls_canvas slot)) (cv_height (ls_canvas slot)),
                  h_mask = getImageData m (cv_width (ls_canvas slot)) (cv_height (ls_canvas slot))\<rparr>"
    and "hist1 \<equiv> (if historyIndex s < int (length (history s)) - 1
                   then js_splice_from (history s) (historyIndex s + 1) else history s)"
  shows "\<exists>k. k \<le> length (hist1 @ [e])
           \<and> commitHistory s = s\<lparr>history := drop k (hist1 @ [e]), historyIndex := historyIndex s + 1 - int k\<rparr>
           \<and> history_bytes (drop k (hist1 @ [e])) \<le> MAX_HISTORY_BYTES
           \<and> (length hist1 \<le> 20 \<longrightarrow> length (drop k (hist1 @ [e])) \<le> 20)"
proof -
  obtain h3 u3 i3 where ev: "evict (hist1 @ [e]) (history_bytes (hist1 @ [e])) (historyIndex s + 1) = (h3, u3, i3)"
    by (metis prod_cases3)
  from evict_spec [OF ev] obtain k where
    k: "k \<le> length (hist1 @ [e])" "h3 = drop k (hist1 @ [e])" "i3 = historyIndex s + 1 - int k"
       "history_bytes h3 \<le> MAX_HISTORY_BYTES"
    by blast
  have c: "commitHistory s =
      (if length h3 > 20 then s\<lparr>history := tl h3, historyIndex := i3 - 1\<rparr>
       else s\<lparr>history := h3, historyIndex := i3\<rparr>)"
    using slot m ctx w h ev
    by (simp add: commitHistory_def Let_def foldl_entry_bytes e_def hist1_def)
  show ?thesis
  proof (cases "length h3 > 20")
    case True
    have tl: "tl h3 = drop (Suc k) (hist1 @ [e])"
      unfolding k(2) by (metis drop_Suc tl_drop)
    have le: "Suc k \<le> length (hist1 @ [e])" using True k(1,2) by simp
    have b: "history_bytes (tl h3) \<le> MAX_HISTORY_BYTES"
    proof -
      have "history_bytes (tl h3) = history_bytes (drop 1 h3)" by (simp add: drop_Suc)
      also have "\<dots> \<le> history_bytes h3" by (rule history_bytes_drop_le)
      finally show ?thesis using k(4) by simp
    qed
    show ?thesis
      by (rule exI [of _ "Suc k"]) (use True c tl le b k(3) in auto)
  next
    case False
    show ?thesis
      by (rule exI [of _ k]) (use False c k in auto)
  qed
qed

lemma js_splice_from_take:
  "- 1 \<le> i \<Longrightarrow> js_splice_from xs (i + 1) = take (nat (i + 1)) xs"
  by (auto simp: js_splice_from_def Let_def min_def)

lemma commitHistory_noop_or_commit:
  "commitHistory s = s \<or>
   (\<exists>slot m. getActiveSlot s = Some slot \<and> maskCtxRef s = Some m \<and> ls_ctx slot
      \<and> 0 < cv_width (ls_canvas slot) \<and> 0 < cv_height (ls_canvas slot))"
  by (auto simp: commitHistory_def Let_def split: option.splits)

lemma commitHistory_bounds:
  assumes inv: "history_inv s"
  shows "length (history (commitHistory s)) \<le> 20
     \<and> history_bytes (history (commitHistory s)) \<le> MAX_HISTORY_BYTES
     \<and> (commitHistory s = s \<or>
         (\<exists>k e. history (commitHistory s) = drop k (take (nat (historyIndex s + 1)) (history s) @ [e])
             \<and> layerId e = activeLayerId s
             \<and> historyIndex (commitHistory s) = int (length (history (commitHistory s))) - 1))"
proof (cases "commitHistory s = s")
  case True
  then show ?thesis using inv by (simp add: history_inv_def)
next
  case False
  with commitHistory_noop_or_commit [of s] obtain slot m where
    g: "getActiveSlot s = Some slot" "maskCtxRef s = Some m" "ls_ctx slot"
       "0 < cv_width (ls_canvas slot)" "0 < cv_height (ls_canvas slot)"
    by blast
  define e where "e = \<lparr>layerId = activeLayerId s,
                  painting = getImageData (ls_canvas slot) (cv_width (ls_canvas slot)) (cv_height (ls_canvas slot)),
                  h_mask = getImageData m (cv_width (ls_canvas slot)) (cv_height (ls_canvas slot))\<rparr>"
  define hist1 where "hist1 = (if historyIndex s < int (length (history s)) - 1
                   then js_splice_from (history s) (historyIndex s + 1) else history s)"
  have h1: "hist1 = take (nat (historyIndex s + 1)) (history s)"
    using inv by (auto simp: hist1_def history_inv_def js_splice_from_take)
  have len1: "length hist1 \<le> 20" "length hist1 = nat (historyIndex s + 1)"
    using inv unfolding h1 by (auto simp: history_inv_def)
  from commitHistory_unfold [OF g] obtain k where
    k: "k \<le> length (hist1 @ [e])"
       "commitHistory s = s\<lparr>history := drop k (hist1 @ [e]), historyIndex := historyIndex s + 1 - int k\<rparr>"
       "history_bytes (drop k (hist1 @ [e])) \<le> MAX_HISTORY_BYTES"
       "length hist1 \<le> 20 \<longrightarrow> length (drop k (hist1 @ [e])) \<le> 20"
    unfolding e_def hist1_def by blast
  have idx: "historyIndex (commitHistory s) = int (length (history (commitHistory s))) - 1"
  proof -
    have "length (drop k (hist1 @ [e])) = length hist1 + 1 - k" by simp
    then have "int (length (drop k (hist1 @ [e]))) = int (length hist1) + 1 - int k"
      using k(1) by (simp add: of_nat_diff)
    moreover have "int (length hist1) = historyIndex s + 1"
      using len1(2) inv by (simp add: history_inv_def)
    ultimately show ?thesis by (simp add: k(2))
  qed
  have hs: "history (commitHistory s) = drop k (take (nat (historyIndex s + 1)) (history s) @ [e])"
    by (simp add: k(2) h1)
  have hs': "history (commitHistory s) = drop k (hist1 @ [e])"
    by (simp add: k(2))
  have lid: "layerId e = activeLayerId s" by (simp add: e_def)
  have c1: "length (history (commitHistory s)) \<le> 20"
    unfolding hs' using k(4) len1(1) by blast
  have c2: "history_bytes (history (commitHistory s)) \<le> MAX_HISTORY_BYTES"
    unfolding hs' by (rule k(3))
  have c3: "\<exists>k e. history (commitHistory s) = drop k (take (nat (historyIndex s + 1)) (history s) @ [e])
             \<and> layerId e = activeLayerId s
             \<and> historyIndex (commitHistory s) = int (length (history (commitHistory s))) - 1"
    using hs lid idx by blast
  show ?thesis using c1 c2 c3 by blast
qed




subsection \<open>Snapshots and canvases\<close>




lemma putImageData_dims [simp]:
  "cv_width (putImageData img c) = cv_width c" "cv_height (putImageData img c) = cv_height c"
  "canvas.more (putImageData img c) = canvas.more c"
  by (simp_all add: putImageData_def)

lemma getImageData_dims [simp]:
  "i_width (getImageData c w h) = w" "i_height (getImageData c w h) = h"
  "length (i_data (getImageData c w h)) = 4 * w * h"
  by (simp_all add: getImageData_def)

lemma putImageData_canvas_ok [simp]: "canvas_ok (putImageData img c)"
  by (simp add: canvas_ok_def putImageData_def)



lemma restore_entry_fields [simp]:
  "history (restore_entry e s) = history s"
  "historyIndex (restore_entry e s) = historyIndex s"
  "activeLayerId (restore_entry e s) = activeLayerId s"
  "maskCtx (restore_entry e s) = maskCtx s"
  "maskCanvas (restore_entry e s) = map_option (putImageData (h_mask e)) (maskCanvas s)"
  by (simp_all add: restore_entry_def Let_def)










subsection \<open>The bounds and the inverse law on the one-pixel document\<close>







section \<open>Resizing and the history\<close>

lemma commitHistory_frame [simp]:
  "layerCanvases (commitHistory s) = layerCanvases s"
  "maskCanvas (commitHistory s) = maskCanvas s"
  "maskCtx (commitHistory s) = maskCtx s"
  "activeLayerId (commitHistory s) = activeLayerId s"
  "temp (commitHistory s) = temp s"
  "composite (commitHistory s) = composite s"
  "paintLoad (commitHistory s) = paintLoad s"
  by (simp_all add: commitHistory_def Let_def split: option.splits prod.splits)

lemma commitHistory_refs [simp]:
  "getActiveSlot (commitHistory s) = getActiveSlot s"
  "maskCtxRef (commitHistory s) = maskCtxRef s"
  by (simp_all add: getActiveSlot_def maskCtxRef_def)

lemma snapshot_of_commitHistory [simp]: "snapshot_of (commitHistory s) = snapshot_of s"
  by (auto simp: snapshot_of_def split: option.splits)

lemma fresh_history_commitHistory [simp]: "fresh_history (commitHistory s) = fresh_history s"
  by (simp add: fresh_history_def)

lemma commitHistory_from_empty:
  assumes "history s = []" "historyIndex s = - 1"
  shows "(history (commitHistory s), historyIndex (commitHistory s)) = fresh_history s"
proof (cases "snapshot_of s")
  case None
  then have "commitHistory s = s"
    by (auto simp: snapshot_of_def commitHistory_def Let_def split: option.splits if_splits)
  then show ?thesis using assms None by (simp add: fresh_history_def)
next
  case (Some e)
  then obtain slot m where g: "getActiveSlot s = Some slot" "maskCtxRef s = Some m" "ls_ctx slot"
      "0 < cv_width (ls_canvas slot)" "0 < cv_height (ls_canvas slot)"
      and e: "e = \<lparr>layerId = activeLayerId s,
                  painting = getImageData (ls_canvas slot) (cv_width (ls_canvas slot)) (cv_height (ls_canvas slot)),
                  h_mask = getImageData m (cv_width (ls_canvas slot)) (cv_height (ls_canvas slot))\<rparr>"
    by (auto simp: snapshot_of_def split: option.splits if_splits)
  show ?thesis
    using assms g Some
    by (simp add: commitHistory_def Let_def fresh_history_def e [symmetric])
qed

lemma safeResize_same: "has_dims nw nh c \<Longrightarrow> safeResize nw nh c = (c, False)"
  by (simp add: safeResize_def has_dims_def)

lemma safeResize_snd: "snd (safeResize nw nh c) = (\<not> has_dims nw nh c)"
  by (simp add: safeResize_def has_dims_def Let_def)


lemma list_ex_layers:
  "list_ex (\<lambda>(id, slot). snd (safeResize nw nh (ls_canvas slot))) ls
     = (\<exists>c \<in> set (map (ls_canvas \<circ> snd) ls). \<not> has_dims nw nh c)"
  by (induction ls) (auto simp: safeResize_snd)

lemma anyResized_iff:
  "((case maskCanvas s of Some m \<Rightarrow> snd (safeResize nw nh m) | None \<Rightarrow> False)
     \<or> list_ex (\<lambda>(id, slot). snd (safeResize nw nh (ls_canvas slot))) (layerCanvases s))
   = (\<exists>c \<in> set (raster_canvases s). \<not> has_dims nw nh c)"
  unfolding list_ex_layers raster_canvases_def
  by (auto simp: safeResize_snd split: option.splits)

lemma updateSize_resized:
  assumes pos: "0 < width * pixelRatio s" "0 < height * pixelRatio s"
    and ch: "\<exists>c \<in> set (raster_canvases s). \<not> has_dims (width * pixelRatio s) (height * pixelRatio s) c"
  shows "(history (updateSize width height s), historyIndex (updateSize width height s))
      = fresh_history (updateSize width height s)"
proof -
  define nw nh where "nw = width * pixelRatio s" and "nh = height * pixelRatio s"
  define s1 where "s1 = s\<lparr>maskCanvas := map_option (fst \<circ> safeResize nw nh) (maskCanvas s),
                       temp := map_option (fst \<circ> safeResize nw nh) (temp s),
                       composite := map_option (fst \<circ> safeResize nw nh) (composite s),
                       layerCanvases := map (\<lambda>(id, slot). (id, slot\<lparr>ls_canvas := fst (safeResize nw nh (ls_canvas slot))\<rparr>))
                                            (layerCanvases s)\<rparr>"
  have any: "(case maskCanvas s of Some m \<Rightarrow> snd (safeResize nw nh m) | None \<Rightarrow> False)
     \<or> list_ex (\<lambda>(id, slot). snd (safeResize nw nh (ls_canvas slot))) (layerCanvases s)"
    unfolding anyResized_iff using ch by (simp add: nw_def nh_def)
  have u: "updateSize width height s = commitHistory (s1\<lparr>history := [], historyIndex := - 1\<rparr>)"
    using pos any unfolding updateSize_def Let_def s1_def nw_def nh_def by (simp add: not_le)
  show ?thesis
    unfolding u using commitHistory_from_empty [of "s1\<lparr>history := [], historyIndex := - 1\<rparr>"]
    by simp
qed

lemma map_layers_same:
  assumes "\<forall>c \<in> set (map (ls_canvas \<circ> snd) ls). has_dims nw nh c"
  shows "map (\<lambda>(id, slot). (id, slot\<lparr>ls_canvas := fst (safeResize nw nh (ls_canvas slot))\<rparr>)) ls = ls"
  using assms by (induction ls) (auto simp: safeResize_same)

lemma commitHistory_temp_composite:
  "history (commitHistory (s\<lparr>temp := t, composite := c\<rparr>)) = history (commitHistory s)"
  "historyIndex (commitHistory (s\<lparr>temp := t, composite := c\<rparr>)) = historyIndex (commitHistory s)"
  by (simp_all add: commitHistory_def getActiveSlot_def maskCtxRef_def Let_def split: option.splits prod.splits)

lemma updateSize_same_dims:
  assumes pos: "0 < width * pixelRatio s" "0 < height * pixelRatio s"
    and same: "\<forall>c \<in> set (raster_canvases s). has_dims (width * pixelRatio s) (height * pixelRatio s) c"
  shows "history (updateSize width height s) = (if history s = [] then history (commitHistory s) else history s)"
    and "historyIndex (updateSize width height s)
         = (if history s = [] then historyIndex (commitHistory s) else historyIndex s)"
    and "layerCanvases (updateSize width height s) = layerCanvases s"
    and "maskCanvas (updateSize width height s) = maskCanvas s"
proof -
  let ?nw = "width * pixelRatio s" and ?nh = "height * pixelRatio s"
  have none: "((case maskCanvas s of Some m \<Rightarrow> snd (safeResize ?nw ?nh m) | None \<Rightarrow> False)
     \<or> list_ex (\<lambda>(id, slot). snd (safeResize ?nw ?nh (ls_canvas slot))) (layerCanvases s)) = False"
    unfolding anyResized_iff using same by simp
  have ls: "map (\<lambda>(id, slot). (id, slot\<lparr>ls_canvas := fst (safeResize ?nw ?nh (ls_canvas slot))\<rparr>)) (layerCanvases s)
      = layerCanvases s"
    using same by (intro map_layers_same) (simp add: raster_canvases_def)
  have mk: "map_option (fst \<circ> safeResize ?nw ?nh) (maskCanvas s) = maskCanvas s"
    using same by (cases "maskCanvas s") (simp_all add: raster_canvases_def safeResize_same)
  define s1 where "s1 = s\<lparr>temp := map_option (fst \<circ> safeResize ?nw ?nh) (temp s),
                       composite := map_option (fst \<circ> safeResize ?nw ?nh) (composite s)\<rparr>"
  have s1': "s\<lparr>maskCanvas := map_option (fst \<circ> safeResize ?nw ?nh) (maskCanvas s),
               temp := map_option (fst \<circ> safeResize ?nw ?nh) (temp s),
               composite := map_option (fst \<circ> safeResize ?nw ?nh) (composite s),
               layerCanvases := map (\<lambda>(id, slot). (id, slot\<lparr>ls_canvas := fst (safeResize ?nw ?nh (ls_canvas slot))\<rparr>))
                                    (layerCanvases s)\<rparr> = s1"
    unfolding ls mk s1_def by simp
  have u: "updateSize width height s = (if length (history s1) = 0 then commitHistory s1 else s1)"
    unfolding updateSize_def Let_def none s1' using pos by (simp add: not_le)
  show "history (updateSize width height s) = (if history s = [] then history (commitHistory s) else history s)"
    "historyIndex (updateSize width height s)
         = (if history s = [] then historyIndex (commitHistory s) else historyIndex s)"
    "layerCanvases (updateSize width height s) = layerCanvases s"
    "maskCanvas (updateSize width height s) = maskCanvas s"
    unfolding u by (simp_all add: s1_def commitHistory_temp_composite)
qed



lemma blank_canvas_dims [simp]:
  "cv_width (blank_canvas w h) = w" "cv_height (blank_canvas w h) = h"
  by (simp_all add: blank_canvas_def)





lemma history_inv_initial: "history_inv (initial_engine settings ratio)"
  by (simp add: history_inv_def initial_engine_def history_bytes_def MAX_HISTORY_BYTES_def)

lemma history_inv_commitHistory:
  assumes inv: "history_inv s"
  shows "history_inv (commitHistory s)"
proof (cases "commitHistory s = s")
  case True
  then show ?thesis using inv by simp
next
  case False
  with commitHistory_bounds [OF inv] have
    b: "length (history (commitHistory s)) \<le> 20"
       "history_bytes (history (commitHistory s)) \<le> MAX_HISTORY_BYTES"
       "historyIndex (commitHistory s) = int (length (history (commitHistory s))) - 1"
    by blast+
  show ?thesis unfolding history_inv_def using b by simp
qed

lemma undo_history:
  "history (undo s) = history s"
  "historyIndex (undo s) = (if historyIndex s \<le> 0 \<or> maskCtxRef s = None then historyIndex s else historyIndex s - 1)"
  by (simp_all add: undo_def Let_def split: option.splits)

lemma redo_history:
  "history (redo s) = history s"
  "historyIndex (redo s) = (if historyIndex s \<ge> int (length (history s)) - 1 \<or> maskCtxRef s = None
                            then historyIndex s else historyIndex s + 1)"
  by (simp_all add: redo_def Let_def split: option.splits)

lemma history_inv_undo: "history_inv s \<Longrightarrow> history_inv (undo s)"
  unfolding history_inv_def undo_history by auto

lemma history_inv_redo: "history_inv s \<Longrightarrow> history_inv (redo s)"
  unfolding history_inv_def redo_history by auto

lemma history_inv_fields:
  "history a = history b \<Longrightarrow> historyIndex a = historyIndex b \<Longrightarrow> history_inv a = history_inv b"
  by (simp add: history_inv_def)

lemma history_inv_updateSize:
  assumes inv: "history_inv s"
  shows "history_inv (updateSize width height s)"
proof (cases "width * pixelRatio s \<le> 0 \<or> height * pixelRatio s \<le> 0")
  case True
  then show ?thesis using inv by (simp add: updateSize_def Let_def)
next
  case False
  then have pos: "0 < width * pixelRatio s" "0 < height * pixelRatio s" by simp_all
  show ?thesis
  proof (cases "\<exists>c \<in> set (raster_canvases s). \<not> has_dims (width * pixelRatio s) (height * pixelRatio s) c")
    case True
    have fh: "(history (updateSize width height s), historyIndex (updateSize width height s))
       = fresh_history (updateSize width height s)"
      using pos True by (rule updateSize_resized)
    have "history_inv t" if "(history t, historyIndex t) = fresh_history t" for t
      using that
      by (auto simp: history_inv_def fresh_history_def history_bytes_def MAX_HISTORY_BYTES_def
          split: option.splits if_splits)
    then show ?thesis using fh by blast
  next
    case False
    then have same: "\<forall>c \<in> set (raster_canvases s). has_dims (width * pixelRatio s) (height * pixelRatio s) c"
      by blast
    note h = updateSize_same_dims(1,2) [OF pos same]
    show ?thesis
    proof (cases "history s = []")
      case True
      have "history_inv (updateSize width height s) = history_inv (commitHistory s)"
        by (rule history_inv_fields) (simp_all add: h True)
      then show ?thesis using history_inv_commitHistory [OF inv] by simp
    next
      case False
      have "history_inv (updateSize width height s) = history_inv s"
        by (rule history_inv_fields) (simp_all add: h False)
      then show ?thesis using inv by simp
    qed
  qed
qed








section \<open>Inverting the mask\<close>


lemma invert_loop_length [simp]: "length (invert_loop i data) = length data"
proof (induction i data rule: invert_loop.induct)
  case (1 i data)
  show ?case
  proof (cases "i < length data")
    case True
    then show ?thesis using "1.IH" by (subst invert_loop.simps) simp
  next
    case False
    then show ?thesis by (subst invert_loop.simps) simp
  qed
qed







lemma invertMask_maskCtx [simp]: "maskCtx (invertMask s) = maskCtx s"
  by (simp add: invertMask_def Let_def split: option.splits)








section \<open>Pattern stamping refuses oversized work\<close>








section \<open>The height map of the paper\<close>

lemma texture_step_length [simp]:
  "length (fst (texture_step i v h)) = length v" "length (snd (texture_step i v h)) = length h"
  by (simp_all add: texture_step_def Let_def)


lemma uint_to_u8clamped: "0 \<le> x \<Longrightarrow> x \<le> 255 \<Longrightarrow> uint (to_u8clamped x) = x"
  by (simp add: to_u8clamped_def uint_word_of_int)

lemma texture_loop_length [simp]:
  "length (fst (texture_loop i v h)) = length v \<and> length (snd (texture_loop i v h)) = length h"
proof (induction i v h rule: texture_loop.induct)
  case (1 i vData hData)
  show ?case
  proof (cases "i < length vData")
    case True
    then show ?thesis using "1.IH" by (subst (1 2) texture_loop.simps) simp
  next
    case False
    then show ?thesis by (subst (1 2) texture_loop.simps) simp
  qed
qed












section \<open>The number of bristles\<close>

lemma bristle_loop_length_le:
  "length (fst (bristle_loop type rnd baseColor swp bc is rc)) \<le> length is"
proof (induction "is" arbitrary: rc)
  case Nil
  then show ?case by simp
next
  case (Cons i "is")
  show ?case
  proof (cases "bristle_geometry type rnd i bc rc")
    case (Pair g rc1)
    show ?thesis
    proof (cases g)
      case None
      then show ?thesis using Pair Cons.IH [of rc1] by simp
    next
      case (Some geo)
      obtain b rc2 where nb: "new_bristle rnd baseColor swp geo rc1 = (b, rc2)" by (cases "new_bristle rnd baseColor swp geo rc1")
      then show ?thesis using Pair Some Cons.IH [of rc2] by (simp add: case_prod_beta)
    qed
  qed
qed

lemma bristle_geometry_not_None:
  "type \<noteq> Fan2 \<Longrightarrow> fst (bristle_geometry type rnd i bc rc) \<noteq> None"
  by (cases type) (simp_all add: bristle_geometry_def Let_def)

lemma bristle_geometry_Some:
  "type \<noteq> Fan2 \<Longrightarrow> \<exists>geo. fst (bristle_geometry type rnd i bc rc) = Some geo"
  using bristle_geometry_not_None [of type rnd i bc rc] by blast

lemma bristle_loop_length_eq:
  assumes "type \<noteq> Fan2"
  shows "length (fst (bristle_loop type rnd baseColor swp bc is rc)) = length is"
proof (induction "is" arbitrary: rc)
  case Nil
  then show ?case by simp
next
  case (Cons i "is")
  obtain geo rc1 where g: "bristle_geometry type rnd i bc rc = (Some geo, rc1)"
    using bristle_geometry_Some [OF assms, of rnd i bc rc]
    by (cases "bristle_geometry type rnd i bc rc") auto
  obtain b rc2 where nb: "new_bristle rnd baseColor swp geo rc1 = (b, rc2)" by (cases "new_bristle rnd baseColor swp geo rc1")
  show ?case using g nb Cons.IH [of rc2] by (simp add: case_prod_beta)
qed

lemma updateBristles_bristles:
  assumes "type \<noteq> Pastel" "type \<noteq> Pastel2"
  shows "length (bristles (updateBristles shuffle rnd type sz s))
     = length (fst (bristle_loop type rnd (rgb_of_hex (color (settingsRef s))) (\<not> wetMode (settingsRef s))
                      \<lfloor>sz * (if type = Fan3 then 3.5 else 1.5)\<rfloor>
                      [0..<nat \<lfloor>sz * (if type = Fan3 then 3.5 else 1.5)\<rfloor>] (randomCalls s)))"
  using assms by (simp add: updateBristles_def Let_def case_prod_beta)


lemma updateBristles_count:
  assumes "type \<noteq> Pastel" "type \<noteq> Pastel2"
  shows "type \<noteq> Fan2 \<Longrightarrow>
           length (bristles (updateBristles shuffle rnd type sz s)) = nat \<lfloor>sz * (if type = Fan3 then 3.5 else 1.5)\<rfloor>"
    and "type = Fan2 \<Longrightarrow> length (bristles (updateBristles shuffle rnd type sz s)) \<le> nat \<lfloor>sz * 1.5\<rfloor>"
proof -
  show "length (bristles (updateBristles shuffle rnd type sz s)) = nat \<lfloor>sz * (if type = Fan3 then 3.5 else 1.5)\<rfloor>"
    if "type \<noteq> Fan2"
    unfolding updateBristles_bristles [OF assms] bristle_loop_length_eq [OF that] by simp
  show "length (bristles (updateBristles shuffle rnd type sz s)) \<le> nat \<lfloor>sz * 1.5\<rfloor>" if "type = Fan2"
  proof -
    have "length (bristles (updateBristles shuffle rnd type sz s))
        \<le> length [0..<nat \<lfloor>sz * (if type = Fan3 then 3.5 else 1.5)\<rfloor>]"
      unfolding updateBristles_bristles [OF assms] by (rule bristle_loop_length_le)
    then show ?thesis using that by simp
  qed
qed

lemma fan2_all_culled:
  "length (bristles (updateBristles shuffle (\<lambda>_. 1 / 10) Fan2 2 s)) = 0"
proof -
  have g: "bristle_geometry Fan2 (\<lambda>_. 1 / 10) i bc rc = (None, rc + 2)" for i bc rc
    by (simp add: bristle_geometry_def Let_def)
  have l: "fst (bristle_loop Fan2 (\<lambda>_. 1 / 10) baseColor swp bc is rc) = []" for baseColor swp bc "is" rc
    by (induction "is" arbitrary: rc) (simp_all add: g)
  show ?thesis
    by (simp add: updateBristles_def Let_def case_prod_beta l)
qed

text \<open>
  C5 (as amended). For a brush type that is not a pastel, \<open>updateBristles\<close> runs over
  \<open>floor(size * m)\<close> candidates, with \<open>m = 3.5\<close> for \<open>fan3\<close> and \<open>1.5\<close> otherwise. Every
  candidate becomes a bristle unless the type is \<open>fan2\<close>: only \<open>fan2\<close> culls candidates
  (those with \<open>|t| > 0.2\<close>, with probability 0.4), so its count can be below
  \<open>floor(size * 1.5)\<close>; the count of \<open>fan3\<close> is exactly \<open>floor(size * 3.5)\<close>.
\<close>

theorem C5_bristle_count:
  assumes "type \<noteq> Pastel" "type \<noteq> Pastel2"
  shows "(type \<noteq> Fan2 \<longrightarrow>
           length (bristles (updateBristles shuffle rnd type sz s)) = nat \<lfloor>sz * (if type = Fan3 then 3.5 else 1.5)\<rfloor>)
       \<and> (type = Fan2 \<longrightarrow> length (bristles (updateBristles shuffle rnd type sz s)) \<le> nat \<lfloor>sz * 1.5\<rfloor>)
       \<and> length (bristles (updateBristles shuffle (\<lambda>_. 1 / 10) Fan2 2 s)) < nat \<lfloor>(2 :: real) * 1.5\<rfloor>"
proof -
  have "nat \<lfloor>(2 :: real) * 1.5\<rfloor> = 3" by simp
  then show ?thesis
    using updateBristles_count [OF assms, of shuffle rnd sz s] fan2_all_culled [of shuffle s]
    by simp
qed

text \<open>
  The claim as written fails: whatever the random numbers are, \<open>fan3\<close> at size 2 has
  exactly \<open>floor(2 * 3.5) = 7\<close> bristles, never fewer.
\<close>

theorem C5_fan3_culling_counterexample:
  "\<not> (\<exists>shuffle rnd. length (bristles (updateBristles shuffle rnd Fan3 2 tiny_engine)) < nat \<lfloor>(2 :: real) * 3.5\<rfloor>)"
proof -
  have "length (bristles (updateBristles shuffle rnd Fan3 2 tiny_engine)) = nat \<lfloor>(2 :: real) * 3.5\<rfloor>" for shuffle rnd
    using updateBristles_count(1) [of Fan3 shuffle rnd 2 tiny_engine] by simp
  then show ?thesis by simp
qed

theorem C5_bristle_count_witness:
  "Fan3 \<noteq> Pastel \<and> Fan3 \<noteq> Pastel2
   \<and> length (bristles (updateBristles id (\<lambda>_. 1 / 2) Fan3 2 tiny_engine)) = 7
   \<and> length (bristles (updateBristles id (\<lambda>_. 1 / 2) Flat 2 tiny_engine)) = 3"
proof -
  have a: "Fan3 \<noteq> Pastel" "Fan3 \<noteq> Pastel2" "Flat \<noteq> Pastel" "Flat \<noteq> Pastel2" by simp_all
  have "nat \<lfloor>(2 :: real) * 3.5\<rfloor> = 7" "nat \<lfloor>(2 :: real) * 1.5\<rfloor> = 3" by simp_all
  then show ?thesis
    using C5_bristle_count [OF a(1,2), of id "\<lambda>_. 1 / 2" 2 tiny_engine]
      C5_bristle_count [OF a(3,4), of id "\<lambda>_. 1 / 2" 2 tiny_engine]
    by simp
qed

section \<open>The paint load\<close>

lemma wet_exchange_range:
  "0 \<le> load \<Longrightarrow> load \<le> 1 \<Longrightarrow> 0 \<le> snd (wet_exchange c br load) \<and> snd (wet_exchange c br load) \<le> 1"
  by (auto simp: wet_exchange_def)

lemma bristle_step_cases:
  "fst (snd (bristle_step env a sz sq b br load rc)) = load
   \<or> (wetMode (e_settings env) \<and> e_wet env \<noteq> None
       \<and> (\<exists>c. fst (snd (bristle_step env a sz sq b br load rc)) = snd (wet_exchange c br load)))"
  unfolding bristle_step_def Let_def
  by (auto simp: case_prod_beta split: option.splits)

lemma bristle_step_range:
  assumes "0 \<le> load" "load \<le> 1"
  shows "0 \<le> fst (snd (bristle_step env a sz sq b br load rc)) \<and> fst (snd (bristle_step env a sz sq b br load rc)) \<le> 1"
  using bristle_step_cases [of env a sz sq b br load rc] wet_exchange_range [OF assms] assms by auto

lemma bristle_step_dry:
  assumes "\<not> wetMode (e_settings env) \<or> e_wet env = None"
  shows "fst (snd (bristle_step env a sz sq b br load rc)) = load"
  using bristle_step_cases [of env a sz sq b br load rc] assms by auto

lemma bristles_pass_range:
  "0 \<le> load \<Longrightarrow> load \<le> 1 \<Longrightarrow>
     0 \<le> fst (snd (bristles_pass env a sz sq b bs load rc)) \<and> fst (snd (bristles_pass env a sz sq b bs load rc)) \<le> 1"
proof (induction bs arbitrary: b load rc)
  case Nil
  then show ?case by simp
next
  case (Cons br bs)
  obtain br' l1 rc1 where st: "bristle_step env a sz sq b br load rc = (br', l1, rc1)"
    by (cases rule: prod_cases3)
  have "0 \<le> l1 \<and> l1 \<le> 1" using bristle_step_range [OF Cons.prems, of env a sz sq b br rc] st by simp
  then have "0 \<le> fst (snd (bristles_pass env a sz sq (b + 1) bs l1 rc1))
           \<and> fst (snd (bristles_pass env a sz sq (b + 1) bs l1 rc1)) \<le> 1"
    using Cons.IH by blast
  then show ?case using st by (simp add: case_prod_beta)
qed

lemma bristles_pass_dry:
  assumes "\<not> wetMode (e_settings env) \<or> e_wet env = None"
  shows "fst (snd (bristles_pass env a sz sq b bs load rc)) = load"
proof (induction bs arbitrary: b load rc)
  case Nil
  then show ?case by simp
next
  case (Cons br bs)
  obtain br' l1 rc1 where st: "bristle_step env a sz sq b br load rc = (br', l1, rc1)"
    by (cases rule: prod_cases3)
  have "l1 = load" using bristle_step_dry [OF assms, of a sz sq b br load rc] st by simp
  then show ?case using st Cons.IH [of "b + 1" load rc1] by (simp add: case_prod_beta)
qed

lemma instance_pass_range:
  "0 \<le> load \<Longrightarrow> load \<le> 1 \<Longrightarrow>
     0 \<le> fst (snd (instance_pass env an bs load rc)) \<and> fst (snd (instance_pass env an bs load rc)) \<le> 1"
  unfolding instance_pass_def Let_def using bristles_pass_range by simp

lemma instance_pass_dry:
  "\<not> wetMode (e_settings env) \<or> e_wet env = None \<Longrightarrow> fst (snd (instance_pass env an bs load rc)) = load"
  unfolding instance_pass_def Let_def using bristles_pass_dry by simp

lemma instances_loop_range:
  "0 \<le> load \<Longrightarrow> load \<le> 1 \<Longrightarrow>
     0 \<le> fst (snd (instances_loop env an n bs load rc)) \<and> fst (snd (instances_loop env an n bs load rc)) \<le> 1"
proof (induction n arbitrary: bs load rc)
  case 0
  then show ?case by simp
next
  case (Suc n)
  obtain bs1 l1 rc1 where ip: "instance_pass env an bs load rc = (bs1, l1, rc1)" by (cases rule: prod_cases3)
  have "0 \<le> l1 \<and> l1 \<le> 1" using instance_pass_range [OF Suc.prems, of env an bs rc] ip by simp
  then show ?case using ip Suc.IH [of l1 bs1 rc1] by simp
qed

lemma instances_loop_dry:
  assumes "\<not> wetMode (e_settings env) \<or> e_wet env = None"
  shows "fst (snd (instances_loop env an n bs load rc)) = load"
proof (induction n arbitrary: bs load rc)
  case 0
  then show ?case by simp
next
  case (Suc n)
  obtain bs1 l1 rc1 where ip: "instance_pass env an bs load rc = (bs1, l1, rc1)" by (cases rule: prod_cases3)
  have "l1 = load" using instance_pass_dry [OF assms, of an bs load rc] ip by simp
  then show ?case using ip Suc.IH [of bs1 load rc1] by simp
qed

lemma depletion_nonneg:
  "0 \<le> speedFactor \<Longrightarrow> 0 \<le> stepSize \<Longrightarrow> 0 \<le> depletion_of st load speedFactor stepSize"
  by (simp add: depletion_of_def Let_def)

lemma step_env_fields [simp]:
  "e_settings (step_env k i) = sc_settings k" "e_wet (step_env k i) = sc_wet k"
  by (simp_all add: step_env_def Let_def)

lemma steps_loop_range:
  assumes "0 \<le> sc_speedFactor k" "0 \<le> sc_stepSize k"
  shows "0 \<le> load \<Longrightarrow> load \<le> 1 \<Longrightarrow>
     0 \<le> fst (snd (steps_loop k is bs load rc)) \<and> fst (snd (steps_loop k is bs load rc)) \<le> 1"
proof (induction "is" arbitrary: bs load rc)
  case Nil
  then show ?case by simp
next
  case (Cons i "is")
  define l1 where "l1 = max 0 (load - depletion_of (sc_settings k) load (sc_speedFactor k) (sc_stepSize k))"
  have d: "0 \<le> depletion_of (sc_settings k) load (sc_speedFactor k) (sc_stepSize k)"
    using assms by (rule depletion_nonneg)
  have r1: "0 \<le> l1" "l1 \<le> 1" using d Cons.prems by (simp_all add: l1_def)
  obtain bs2 l2 rc2 where il: "instances_loop (step_env k i) (sc_angle k) (if isPastelType (sc_settings k) then 2 else 1) bs l1 rc
      = (bs2, l2, rc2)" by (cases rule: prod_cases3)
  have "0 \<le> l2 \<and> l2 \<le> 1"
    using instances_loop_range [OF r1, of "step_env k i" "sc_angle k" "if isPastelType (sc_settings k) then 2 else 1" bs rc]
    unfolding il by simp
  then have "0 \<le> fst (snd (steps_loop k is bs2 l2 rc2)) \<and> fst (snd (steps_loop k is bs2 l2 rc2)) \<le> 1"
    using Cons.IH by blast
  then show ?case using il by (simp add: Let_def l1_def)
qed

lemma steps_loop_dry:
  assumes "0 \<le> sc_speedFactor k" "0 \<le> sc_stepSize k"
    and dry: "\<not> wetMode (sc_settings k) \<or> sc_wet k = None"
  shows "0 \<le> load \<Longrightarrow> fst (snd (steps_loop k is bs load rc)) \<le> load
           \<and> 0 \<le> fst (snd (steps_loop k is bs load rc))"
proof (induction "is" arbitrary: bs load rc)
  case Nil
  then show ?case by simp
next
  case (Cons i "is")
  define l1 where "l1 = max 0 (load - depletion_of (sc_settings k) load (sc_speedFactor k) (sc_stepSize k))"
  have d: "0 \<le> depletion_of (sc_settings k) load (sc_speedFactor k) (sc_stepSize k)"
    using assms(1,2) by (rule depletion_nonneg)
  have r1: "0 \<le> l1" "l1 \<le> load" using d Cons.prems by (simp_all add: l1_def)
  obtain bs2 l2 rc2 where il: "instances_loop (step_env k i) (sc_angle k) (if isPastelType (sc_settings k) then 2 else 1) bs l1 rc
      = (bs2, l2, rc2)" by (cases rule: prod_cases3)
  have "l2 = l1"
    using instances_loop_dry [of "step_env k i" "sc_angle k" "if isPastelType (sc_settings k) then 2 else 1" bs l1 rc] dry
    unfolding il by simp
  then have "fst (snd (steps_loop k is bs2 l2 rc2)) \<le> l1 \<and> 0 \<le> fst (snd (steps_loop k is bs2 l2 rc2))"
    using Cons.IH [of l1 bs2 rc2] r1 by simp
  then have fin: "fst (snd (steps_loop k is bs2 l2 rc2)) \<le> load \<and> 0 \<le> fst (snd (steps_loop k is bs2 l2 rc2))"
    using r1(2) by linarith
  have unf: "steps_loop k (i # is) bs load rc = steps_loop k is bs2 l2 rc2"
    using il by (simp add: Let_def l1_def)
  show ?case unfolding unf by (rule fin)
qed

lemma drawSegment_settings [simp]:
  "settingsRef (drawSegment rnd x y p tx ty wb s) = settingsRef s"
  by (simp add: drawSegment_def Let_def case_prod_beta)

lemma drawSegment_paintLoad:
  "paintLoad (drawSegment rnd x y p tx ty wb s) = paintLoad s
   \<or> (\<exists>k is bs rc. sc_settings k = settingsRef s \<and> sc_wet k = wb \<and> 0 \<le> sc_speedFactor k \<and> 0 \<le> sc_stepSize k
         \<and> paintLoad (drawSegment rnd x y p tx ty wb s) = fst (snd (steps_loop k is bs (paintLoad s) rc)))"
proof (cases "\<not> isDrawing s \<or> getActiveContext s = None \<or> tempCtxRef s = None")
  case True
  then show ?thesis by (simp add: drawSegment_def)
next
  case False
  then obtain a b where guard: "isDrawing s" "getActiveContext s = Some a" "tempCtxRef s = Some b"
    by auto
  define dist where "dist = sqrt ((x - p_x (lastPoint s)) * (x - p_x (lastPoint s)) + (y - p_y (lastPoint s)) * (y - p_y (lastPoint s)))"
  define stepSize0 where "stepSize0 = max 1.5 (size (settingsRef s) *
      (if pressureSensitivity (settingsRef s) then 0.08 * max 0.15 (min (pressure (lastPoint s)) p) else 0.08))"
  define stepSize1 where "stepSize1 = (if brushType (settingsRef s) = Pastel then max 1.5 (size (settingsRef s) * 0.22) else stepSize0)"
  define stepSize where "stepSize = (if brushType (settingsRef s) = Pastel2 then max 1.5 (size (settingsRef s) * 0.25) else stepSize1)"
  have sp: "0 \<le> stepSize" by (simp add: stepSize_def stepSize1_def stepSize0_def le_max_iff_disj)
  have dp: "0 \<le> min (dist / 15) 1" by (simp add: dist_def)
  define s1 where "s1 = (if dist > 4
                       then
                         let targetAngle = atan2 (y - p_y (lastPoint s)) (x - p_x (lastPoint s))
                         in if \<not> hasMoved s then s\<lparr>angle := targetAngle, hasMoved := True\<rparr>
                            else
                              let rotateSpeed = (if brushType (settingsRef s) = Chisel then 0.35 else 0.08);
                                  diff = normalize_diff (targetAngle - angle s)
                              in s\<lparr>angle := angle s + diff * rotateSpeed\<rparr>
                       else s)"
  have s1: "paintLoad s1 = paintLoad s" by (simp add: s1_def Let_def)
  define k where "k = \<lparr>sc_settings = settingsRef s, sc_dpr = pixelRatio s, sc_wet = wb, sc_rnd = rnd,
                      sc_last = lastPoint s, sc_x = x, sc_y = y, sc_pressure = p, sc_steps = \<lceil>dist / stepSize\<rceil>,
                      sc_stepSize = stepSize, sc_speedFactor = min (dist / 15) 1.0,
                      sc_tiltMag = (case (tx, ty) of (Some tx, Some ty) \<Rightarrow> min 1 (max \<bar>tx\<bar> \<bar>ty\<bar> / 60) | _ \<Rightarrow> 0.5),
                      sc_angle = angle s1 + pi / 2 + (case tx of Some tx \<Rightarrow>
                                   if brushType (settingsRef s) = Fan2 \<or> brushType (settingsRef s) = Fan3
                                   then (tx / 45) * (pi / 4) else 0 | None \<Rightarrow> 0)\<rparr>"
  have eq: "drawSegment rnd x y p tx ty wb s =
        (if dist < stepSize \<and> hasMoved s then s
         else case steps_loop k [0..<nat \<lceil>dist / stepSize\<rceil> + 1] (bristles s1) (paintLoad s1) (randomCalls s1) of
                (bs, load, rc) \<Rightarrow>
                  s1\<lparr>bristles := bs, paintLoad := load, randomCalls := rc,
                     lastPoint := \<lparr>p_x = x, p_y = y, pressure = p, tiltX = tx, tiltY = ty\<rparr>\<rparr>)"
    unfolding drawSegment_def Let_def k_def s1_def dist_def stepSize_def stepSize1_def stepSize0_def
    by (simp only: guard simp_thms if_False option.distinct)
  show ?thesis
  proof (cases "dist < stepSize \<and> hasMoved s")
    case True
    then have "drawSegment rnd x y p tx ty wb s = s"
      unfolding eq by simp
    then show ?thesis by simp
  next
    case False
    have "paintLoad (drawSegment rnd x y p tx ty wb s)
        = fst (snd (steps_loop k [0..<nat \<lceil>dist / stepSize\<rceil> + 1] (bristles s1) (paintLoad s1) (randomCalls s1)))"
      unfolding eq if_not_P [OF False] by (simp add: case_prod_beta)
    moreover have "sc_settings k = settingsRef s" "sc_wet k = wb" "0 \<le> sc_speedFactor k" "0 \<le> sc_stepSize k"
      using sp dp by (simp_all add: k_def)
    ultimately show ?thesis unfolding s1 by blast
  qed
qed

lemma drawSegment_range:
  assumes "0 \<le> paintLoad s" "paintLoad s \<le> 1"
  shows "0 \<le> paintLoad (drawSegment rnd x y p tx ty wb s) \<and> paintLoad (drawSegment rnd x y p tx ty wb s) \<le> 1"
  using drawSegment_paintLoad [of rnd x y p tx ty wb s] steps_loop_range assms by auto

lemma drawSegment_dry:
  assumes "0 \<le> paintLoad s" "\<not> wetMode (settingsRef s) \<or> wb = None"
  shows "paintLoad (drawSegment rnd x y p tx ty wb s) \<le> paintLoad s \<and> 0 \<le> paintLoad (drawSegment rnd x y p tx ty wb s)"
  using drawSegment_paintLoad [of rnd x y p tx ty wb s] steps_loop_dry assms by auto

lemma drawSegments_dry:
  assumes "\<not> wetMode (settingsRef s) \<or> wb = None"
  shows "0 \<le> paintLoad s \<Longrightarrow>
     paintLoad (drawSegments rnd points wb s) \<le> paintLoad s \<and> 0 \<le> paintLoad (drawSegments rnd points wb s)"
  using assms
proof (induction points arbitrary: s)
  case Nil
  then show ?case by (simp add: drawSegments_def)
next
  case (Cons pt points)
  let ?s1 = "drawSegment rnd (p_x pt) (p_y pt) (pressure pt) (tiltX pt) (tiltY pt) wb s"
  have a: "paintLoad ?s1 \<le> paintLoad s \<and> 0 \<le> paintLoad ?s1"
    using Cons.prems by (intro drawSegment_dry) simp_all
  have b: "paintLoad (drawSegments rnd points wb ?s1) \<le> paintLoad ?s1 \<and> 0 \<le> paintLoad (drawSegments rnd points wb ?s1)"
    using a Cons.prems(2) by (intro Cons.IH) simp_all
  have "drawSegments rnd (pt # points) wb s = drawSegments rnd points wb ?s1"
    by (simp add: drawSegments_def)
  then show ?case using a b by simp
qed

lemma startStroke_paintLoad:
  "paintLoad (startStroke x y p tx ty s) = (if autoClean (settingsRef s) then 1 else max (paintLoad s) 0.5)"
  by (simp add: startStroke_def Let_def)

lemma paintLoad_frame:
  "paintLoad (commitHistory s) = paintLoad s"
  "paintLoad (undo s) = paintLoad s"
  "paintLoad (redo s) = paintLoad s"
  "paintLoad (updateSize w h s) = paintLoad s"
  "paintLoad (invertMask s) = paintLoad s"
  "paintLoad (drawPatternLine rz rnd x1 y1 x2 y2 s) = paintLoad s"
  "paintLoad (drawPatternLasso rz pts s) = paintLoad s"
  "paintLoad (updateBristles shuffle rnd type sz s) = paintLoad s"
proof -
  show c: "paintLoad (commitHistory s) = paintLoad s" for s by simp
  have r: "paintLoad (restore_entry e s) = paintLoad s" for e s by (simp add: restore_entry_def Let_def)
  show "paintLoad (undo s) = paintLoad s" by (simp add: undo_def Let_def r split: option.splits)
  show "paintLoad (redo s) = paintLoad s" by (simp add: redo_def Let_def r split: option.splits)
  show "paintLoad (updateSize w h s) = paintLoad s" by (simp add: updateSize_def Let_def c)
  show "paintLoad (invertMask s) = paintLoad s" by (simp add: invertMask_def Let_def c split: option.splits)
  show "paintLoad (drawPatternLine rz rnd x1 y1 x2 y2 s) = paintLoad s"
    by (simp add: drawPatternLine_def Let_def c set_active_canvas_def case_prod_beta split: option.splits)
  show "paintLoad (drawPatternLasso rz pts s) = paintLoad s"
    by (simp add: drawPatternLasso_def Let_def c set_active_canvas_def case_prod_beta split: option.splits)
  show "paintLoad (updateBristles shuffle rnd type sz s) = paintLoad s"
    by (simp add: updateBristles_def Let_def case_prod_beta)
qed

lemma startStroke_settings [simp]:
  "settingsRef (startStroke x y p tx ty s) = settingsRef s"
  by (simp add: startStroke_def Let_def)

text \<open>
  C4.  The paint load stays within [0, 1]: it is 1 in the initial state, and from a state where
  it lies in [0, 1] both \<open>drawSegment\<close> and \<open>startStroke\<close> lead to a state where it does.
  While wet mode is off, \<open>drawSegment\<close> never increases it, so it is non-increasing over the
  segments of a batch; \<open>drawSegment\<close> increases it only in wet mode with a wet buffer to pick
  paint up from.  \<open>startStroke\<close> sets it to 1 with auto-clean and raises it to at least 0.5
  without.  The other operations of the engine (\<open>commitHistory\<close>, \<open>undo\<close>, \<open>redo\<close>,
  \<open>updateSize\<close>, \<open>invertMask\<close>, pattern stamping, \<open>updateBristles\<close>) leave it as it is.
\<close>

theorem C4_paintLoad_bounds:
  assumes "0 \<le> paintLoad s" "paintLoad s \<le> 1"
  shows "paintLoad (initial_engine st ratio) = 1
     \<and> (0 \<le> paintLoad (drawSegment rnd x y p tx ty wb s) \<and> paintLoad (drawSegment rnd x y p tx ty wb s) \<le> 1)
     \<and> (0 \<le> paintLoad (startStroke x y p tx' ty' s) \<and> paintLoad (startStroke x y p tx' ty' s) \<le> 1)
     \<and> (\<not> wetMode (settingsRef s) \<longrightarrow>
          paintLoad (drawSegment rnd x y p tx ty wb s) \<le> paintLoad s
          \<and> paintLoad (drawSegments rnd points wb s) \<le> paintLoad s)
     \<and> (paintLoad (drawSegment rnd x y p tx ty wb s) > paintLoad s \<longrightarrow> wetMode (settingsRef s) \<and> wb \<noteq> None)
     \<and> paintLoad (startStroke x y p tx' ty' s) = (if autoClean (settingsRef s) then 1 else max (paintLoad s) 0.5)
     \<and> paintLoad (commitHistory s) = paintLoad s \<and> paintLoad (undo s) = paintLoad s
     \<and> paintLoad (redo s) = paintLoad s \<and> paintLoad (updateSize w h s) = paintLoad s
     \<and> paintLoad (invertMask s) = paintLoad s
     \<and> paintLoad (drawPatternLine rz rnd x1 y1 x2 y2 s) = paintLoad s
     \<and> paintLoad (drawPatternLasso rz pts s) = paintLoad s
     \<and> paintLoad (updateBristles shuffle rnd type sz s) = paintLoad s"
proof -
  have i: "paintLoad (initial_engine st ratio) = 1" by (simp add: initial_engine_def)
  have a: "0 \<le> paintLoad (drawSegment rnd x y p tx ty wb s) \<and> paintLoad (drawSegment rnd x y p tx ty wb s) \<le> 1"
    using assms by (rule drawSegment_range)
  have b: "0 \<le> paintLoad (startStroke x y p tx' ty' s) \<and> paintLoad (startStroke x y p tx' ty' s) \<le> 1"
    using assms by (simp add: startStroke_paintLoad le_max_iff_disj)
  have c: "paintLoad (drawSegment rnd x y p tx ty wb s) \<le> paintLoad s
          \<and> paintLoad (drawSegments rnd points wb s) \<le> paintLoad s" if "\<not> wetMode (settingsRef s)"
    using drawSegment_dry [of s wb rnd x y p tx ty] drawSegments_dry [of s wb rnd points] assms(1) that by blast
  have d: "wetMode (settingsRef s) \<and> wb \<noteq> None" if "paintLoad (drawSegment rnd x y p tx ty wb s) > paintLoad s"
    using drawSegment_dry [of s wb rnd x y p tx ty] assms(1) that by force
  have e: "paintLoad (startStroke x y p tx' ty' s) = (if autoClean (settingsRef s) then 1 else max (paintLoad s) 0.5)"
    by (rule startStroke_paintLoad)
  have f: "paintLoad (commitHistory s) = paintLoad s \<and> paintLoad (undo s) = paintLoad s
     \<and> paintLoad (redo s) = paintLoad s \<and> paintLoad (updateSize w h s) = paintLoad s
     \<and> paintLoad (invertMask s) = paintLoad s
     \<and> paintLoad (drawPatternLine rz rnd x1 y1 x2 y2 s) = paintLoad s
     \<and> paintLoad (drawPatternLasso rz pts s) = paintLoad s
     \<and> paintLoad (updateBristles shuffle rnd type sz s) = paintLoad s"
    by (simp add: paintLoad_frame)
  have cd: "(\<not> wetMode (settingsRef s) \<longrightarrow>
          paintLoad (drawSegment rnd x y p tx ty wb s) \<le> paintLoad s
          \<and> paintLoad (drawSegments rnd points wb s) \<le> paintLoad s)
     \<and> (paintLoad (drawSegment rnd x y p tx ty wb s) > paintLoad s \<longrightarrow> wetMode (settingsRef s) \<and> wb \<noteq> None)"
    using c d by blast
  show ?thesis
    by (rule conjI [OF i conjI [OF a conjI [OF b conjI [OF conjunct1 [OF cd] conjI [OF conjunct2 [OF cd] conjI [OF e f]]]]]])
qed

lemma stroke_engine_fields:
  "paintLoad stroke_engine = 1" "wetMode (settingsRef stroke_engine) = False"
  "isDrawing stroke_engine" "autoClean (settingsRef stroke_engine)"
  by (simp_all add: stroke_engine_def startStroke_def Let_def tiny_engine_def initial_engine_def default_settings_def)

theorem C4_paintLoad_bounds_witness:
  "0 \<le> paintLoad stroke_engine \<and> paintLoad stroke_engine \<le> 1 \<and> \<not> wetMode (settingsRef stroke_engine)
   \<and> 0 \<le> paintLoad (drawSegment (\<lambda>n. 1 / 2) 3 4 (1 / 2) None None None stroke_engine)
   \<and> paintLoad (drawSegment (\<lambda>n. 1 / 2) 3 4 (1 / 2) None None None stroke_engine) \<le> paintLoad stroke_engine
   \<and> paintLoad (startStroke 3 4 (1 / 2) 0 0 stroke_engine) = 1"
  using C4_paintLoad_bounds [where s = stroke_engine and rnd = "\<lambda>n. 1 / 2" and x = 3 and y = 4 and p = "1 / 2"
      and tx = None and ty = None and wb = None and tx' = 0 and ty' = 0]
  by (simp add: stroke_engine_fields)

end
